theory Spec2Isabelle
  imports Main "HOL-Library.Multiset" "HOL-Library.Word"
begin

section \<open>Go strings, runes and the fmt verbs the program uses\<close>

text \<open>
  A Go string is a sequence of bytes, here a \<^typ>\<open>string\<close> (a list of 8-bit
  characters); \<open>len\<close> counts bytes and \<open>s[:len(s)-1]\<close> drops the last byte. A rune
  is a 32-bit integer, here an \<^typ>\<open>int\<close>. The conversion \<open>string(r)\<close> of a rune
  gives its UTF-8 encoding, and the encoding of U+FFFD for a value that is no code point.
\<close>

definition runeString :: "int \<Rightarrow> string" where
  "runeString r =
     (if r < 0 \<or> 0x10FFFF < r \<or> (0xD800 \<le> r \<and> r \<le> 0xDFFF)
        then [CHR 0xEF, CHR 0xBF, CHR 0xBD]
      else if r < 0x80 then [char_of r]
      else if r < 0x800 then [char_of (0xC0 + r div 64), char_of (0x80 + r mod 64)]
      else if r < 0x10000
        then [char_of (0xE0 + r div 4096), char_of (0x80 + r div 64 mod 64),
              char_of (0x80 + r mod 64)]
      else [char_of (0xF0 + r div 262144), char_of (0x80 + r div 4096 mod 64),
            char_of (0x80 + r div 64 mod 64), char_of (0x80 + r mod 64)])"

definition digitChar :: "nat \<Rightarrow> char" where
  "digitChar d = char_of (48 + d)"

fun showNat :: "nat \<Rightarrow> string" where
  "showNat n = (if n < 10 then [digitChar n] else showNat (n div 10) @ [digitChar (n mod 10)])"

text \<open>The verb \<open>%d\<close> of \<open>fmt.Printf\<close> on an integer.\<close>

definition showInt :: "int \<Rightarrow> string" where
  "showInt i = (if i < 0 then CHR ''-'' # showNat (nat (- i)) else showNat (nat i))"

subsection \<open>\<open>fmt.Sscanf(buf, "%d", &n)\<close>\<close>

text \<open>
  The scanner of Go's \<open>fmt\<close> package for the verb \<open>%d\<close>, on a platform whose
  \<open>int\<close> has 64 bits. It skips leading space (a newline there is an error), accepts one
  optional sign, then the longest run of decimal digits and underscores, and hands the
  token to \<open>strconv.ParseInt(tok, 10, 64)\<close>, which refuses an underscore and a value out
  of range. Input after the token is left unread and is no error. \<open>None\<close> is a non-nil
  \<open>err\<close>.
\<close>

definition spaceRunes :: "string list" where
  "spaceRunes =
     [[CHR 0x09], [CHR 0x0B], [CHR 0x0C], [CHR 0x0D], [CHR 0x20],
      [CHR 0xC2, CHR 0x85], [CHR 0xC2, CHR 0xA0], [CHR 0xE1, CHR 0x9A, CHR 0x80],
      [CHR 0xE2, CHR 0x80, CHR 0x80], [CHR 0xE2, CHR 0x80, CHR 0x81],
      [CHR 0xE2, CHR 0x80, CHR 0x82], [CHR 0xE2, CHR 0x80, CHR 0x83],
      [CHR 0xE2, CHR 0x80, CHR 0x84], [CHR 0xE2, CHR 0x80, CHR 0x85],
      [CHR 0xE2, CHR 0x80, CHR 0x86], [CHR 0xE2, CHR 0x80, CHR 0x87],
      [CHR 0xE2, CHR 0x80, CHR 0x88], [CHR 0xE2, CHR 0x80, CHR 0x89],
      [CHR 0xE2, CHR 0x80, CHR 0x8A], [CHR 0xE2, CHR 0x80, CHR 0xA8],
      [CHR 0xE2, CHR 0x80, CHR 0xA9], [CHR 0xE2, CHR 0x80, CHR 0xAF],
      [CHR 0xE2, CHR 0x81, CHR 0x9F], [CHR 0xE3, CHR 0x80, CHR 0x80]]"

text \<open>The encoded space rune that the input starts with, if there is one.\<close>

definition spacePrefix :: "string \<Rightarrow> string option" where
  "spacePrefix buf = find (\<lambda>p. take (length p) buf = p) spaceRunes"

function SkipSpace :: "string \<Rightarrow> string option" where
  "SkipSpace buf =
     (if buf = [] then Some []
      else if hd buf = CHR 0x0A then None
      else (case spacePrefix buf of
              None \<Rightarrow> Some buf
            | Some p \<Rightarrow> SkipSpace (drop (length p) buf)))"
  by pat_completeness auto
termination
  by (relation "measure length")
     (auto simp: spacePrefix_def spaceRunes_def split: if_splits)

definition isDigit :: "char \<Rightarrow> bool" where
  "isDigit c = ((48::nat) \<le> of_char c \<and> of_char c \<le> (57::nat))"

definition digitVal :: "char \<Rightarrow> int" where
  "digitVal c = of_char c - 48"

definition ParseInt :: "string \<Rightarrow> int option" where
  "ParseInt tok =
     (if tok = [] then None
      else
        let neg = (hd tok = CHR ''-'');
            ds = (if hd tok = CHR ''+'' \<or> hd tok = CHR ''-'' then tl tok else tok)
        in if ds = [] \<or> \<not> list_all isDigit ds then None
           else
             let un = foldl (\<lambda>a c. 10 * a + digitVal c) 0 ds
             in if 2 ^ 64 \<le> un then None
                else if \<not> neg \<and> 2 ^ 63 \<le> un then None
                else if neg \<and> 2 ^ 63 < un then None
                else Some (if neg then - un else un))"

definition Sscanf_d :: "string \<Rightarrow> int option" where
  "Sscanf_d buf =
     (case SkipSpace buf of
        None \<Rightarrow> None
      | Some r \<Rightarrow>
          if r = [] then None
          else
            let sgn = (if hd r = CHR ''+'' \<or> hd r = CHR ''-'' then [hd r] else []);
                r1 = drop (length sgn) r;
                ds = takeWhile (\<lambda>c. isDigit c \<or> c = CHR ''_'') r1
            in if ds = [] then None else ParseInt (sgn @ ds))"

subsection \<open>Padding to a width\<close>

text \<open>
  The verbs \<open>%-Ns\<close> and \<open>%Ns\<close> pad a string with spaces up to \<open>N\<close> runes, counted
  as \<open>utf8.RuneCountInString\<close> counts them: a well-formed encoding is one rune, and a
  byte that starts none is one rune by itself.
\<close>

definition contByte :: "char \<Rightarrow> bool" where
  "contByte c = ((0x80::nat) \<le> of_char c \<and> of_char c \<le> (0xBF::nat))"

definition inRange :: "nat \<Rightarrow> nat \<Rightarrow> char \<Rightarrow> bool" where
  "inRange lo hi c = (lo \<le> of_char c \<and> of_char c \<le> hi)"

fun runeLen :: "string \<Rightarrow> nat" where
  "runeLen (b0 # b1 # b2 # b3 # bs) =
     (if inRange 0xC2 0xDF b0 \<and> contByte b1 then 2
      else if b0 = CHR 0xE0 \<and> inRange 0xA0 0xBF b1 \<and> contByte b2 then 3
      else if b0 = CHR 0xED \<and> inRange 0x80 0x9F b1 \<and> contByte b2 then 3
      else if inRange 0xE1 0xEF b0 \<and> b0 \<noteq> CHR 0xED \<and> contByte b1 \<and> contByte b2 then 3
      else if b0 = CHR 0xF0 \<and> inRange 0x90 0xBF b1 \<and> contByte b2 \<and> contByte b3 then 4
      else if inRange 0xF1 0xF3 b0 \<and> contByte b1 \<and> contByte b2 \<and> contByte b3 then 4
      else if b0 = CHR 0xF4 \<and> inRange 0x80 0x8F b1 \<and> contByte b2 \<and> contByte b3 then 4
      else 1)"
| "runeLen [b0, b1, b2] =
     (if inRange 0xC2 0xDF b0 \<and> contByte b1 then 2
      else if b0 = CHR 0xE0 \<and> inRange 0xA0 0xBF b1 \<and> contByte b2 then 3
      else if b0 = CHR 0xED \<and> inRange 0x80 0x9F b1 \<and> contByte b2 then 3
      else if inRange 0xE1 0xEF b0 \<and> b0 \<noteq> CHR 0xED \<and> contByte b1 \<and> contByte b2 then 3
      else 1)"
| "runeLen [b0, b1] = (if inRange 0xC2 0xDF b0 \<and> contByte b1 then 2 else 1)"
| "runeLen bs = 1"

function RuneCountInString :: "string \<Rightarrow> nat" where
  "RuneCountInString s = (if s = [] then 0 else Suc (RuneCountInString (drop (runeLen s) s)))"
  by pat_completeness auto
termination
proof (relation "measure length")
  show "wf (measure length)" by simp
next
  fix s :: string
  assume "s \<noteq> []"
  moreover have "0 < runeLen s" by (induction s rule: runeLen.induct) simp_all
  ultimately show "(drop (runeLen s) s, s) \<in> measure length" by simp
qed

definition padRight :: "nat \<Rightarrow> string \<Rightarrow> string" where
  "padRight n s = s @ replicate (n - RuneCountInString s) CHR '' ''"

definition padLeft :: "nat \<Rightarrow> string \<Rightarrow> string" where
  "padLeft n s = replicate (n - RuneCountInString s) CHR '' '' @ s"

text \<open>\<open>strings.Join\<close>.\<close>

fun Join :: "string list \<Rightarrow> string \<Rightarrow> string" where
  "Join [] sep = []"
| "Join [x] sep = x"
| "Join (x # y # ys) sep = x @ sep @ Join (y # ys) sep"

subsection \<open>\<open>sort.Sort\<close>\<close>

text \<open>
  \<open>sort.Sort\<close> orders a slice in place by the \<open>Less\<close> of its interface. It is the
  insertion sort that Go's library runs on a short slice: each element in turn moves
  left while it is less than its left neighbour. On a long slice the library's order
  among elements that compare equal may differ: \<open>sort.Sort\<close> is not stable, and may
  reorder equal elements even of a slice that is in order already. So only what holds of
  every sort is proved of \<open>Sort\<close> below: its result is in order and holds the same
  elements. \<open>sink\<close> takes the sorted part in reverse (the nearest neighbour first).
\<close>

fun sink :: "('a \<Rightarrow> 'a \<Rightarrow> bool) \<Rightarrow> 'a \<Rightarrow> 'a list \<Rightarrow> 'a list" where
  "sink lt x [] = [x]"
| "sink lt x (y # ys) = (if lt x y then y # sink lt x ys else x # y # ys)"

definition Sort :: "('a \<Rightarrow> 'a \<Rightarrow> bool) \<Rightarrow> 'a list \<Rightarrow> 'a list" where
  "Sort lt xs = rev (foldl (\<lambda>front x. sink lt x front) [] xs)"

text \<open>\<open>sort.Reverse\<close>: its \<open>Less(i, j)\<close> is the \<open>Less(j, i)\<close> of what it wraps.\<close>

definition Reverse :: "('a \<Rightarrow> 'a \<Rightarrow> bool) \<Rightarrow> 'a \<Rightarrow> 'a \<Rightarrow> bool" where
  "Reverse lt a b = lt b a"

section \<open>The data of the user interface\<close>

text \<open>
  An event of the terminal library (\<open>termui.Event\<close>): its type, the key of a key event
  that is no character, and the character of one that is. The library gives a key event
  either a key or a character: \<open>Key\<close> is 0 when \<open>Ch\<close> is not.
\<close>

datatype EventType =
  EventKey | EventResize | EventMouse | EventError | EventInterrupt | EventRaw | EventNone

record Event =
  Type :: EventType
  Key :: "16 word"
  Ch :: int

definition KeyCtrlC :: "16 word" where "KeyCtrlC = 0x03"
definition KeyBackspace :: "16 word" where "KeyBackspace = 0x08"
definition KeyEnter :: "16 word" where "KeyEnter = 0x0D"
definition KeyBackspace2 :: "16 word" where "KeyBackspace2 = 0x7F"

definition wellFormedEvent :: "Event \<Rightarrow> bool" where
  "wellFormedEvent e = (Ch e = 0 \<or> Key e = 0)"

text \<open>
  Modelled from the spec: the sort tokens \<open>SortByCid\<close> ... \<open>SortByInBytes\<close> are
  constants of the package \<open>util\<close>, which is not among the sources; their spelling is
  the one of the help text and of the recognized tokens the specification lists.
\<close>

definition SortByCid :: string where "SortByCid = ''cid''"
definition SortBySubs :: string where "SortBySubs = ''subs''"
definition SortByPending :: string where "SortByPending = ''pending''"
definition SortByOutMsgs :: string where "SortByOutMsgs = ''msgs_to''"
definition SortByInMsgs :: string where "SortByInMsgs = ''msgs_from''"
definition SortByOutBytes :: string where "SortByOutBytes = ''bytes_to''"
definition SortByInBytes :: string where "SortByInBytes = ''bytes_from''"

text \<open>
  Modelled from the spec: the type \<open>Engine\<close> is declared in the package \<open>util\<close>; these
  are the fields of the dashboard configuration that \<open>main\<close> and \<open>StartUI\<close> read and
  write (the HTTP client and the URI play no part here).
\<close>

record Engine =
  Conns :: int
  Delay :: int
  SortOpt :: string
  DisplaySubs :: bool

datatype ViewMode = TopViewMode | HelpViewMode

text \<open>
  What the program does to the world outside its variables, in the order it does it:
  a write to the terminal (\<open>fmt.Printf\<close>, with the text written), a sleep (in seconds),
  \<open>close(shutdownCh)\<close>, \<open>ui.Close()\<close>, \<open>os.Exit\<close> with its code, the resizing
  and aligning of \<open>ui.Body\<close>, and \<open>ui.Render(ui.Body)\<close>.
\<close>

datatype action =
    Printf string
  | Sleep nat
  | CloseShutdownCh
  | UiClose
  | OsExit int
  | BodyResize
  | Render

text \<open>
  The goroutines \<open>StartUI\<close> starts beside its event loop, each at the point it has
  reached: \<open>update\<close> waiting for statistics or waiting to send on \<open>redraw\<close>; the
  goroutine of an invalid sort order before and after its first statements (the second
  point is its sleep); the goroutine of a resize, waiting to send on \<open>redraw\<close>.
\<close>

datatype goroutine = UpdateRecv | UpdateSend | DwellStart | DwellSleep | ResizeSend

text \<open>
  The variables of \<open>StartUI\<close> that its closures and its loop share, the configuration
  they point to, the trace of actions, and whether the process has exited.
\<close>

record ui_state =
  engine :: Engine
  textVar :: string
  parText :: string
  bodyRows :: ViewMode
  viewMode :: ViewMode
  waitingSortOption :: bool
  waitingLimitOption :: bool
  displaySubscriptions :: bool
  optionBuf :: string
  goroutines :: "goroutine list"
  trace :: "action list"
  exited :: bool

section \<open>The statistics and \<open>generateParagraph\<close>\<close>

text \<open>
  The statistics of one poll, with the fields \<open>generateParagraph\<close> reads. The types
  are those of the server's monitoring package; a floating-point number is a value of
  the type \<open>'f\<close> and a time one of \<open>'t\<close>, which the program only hands to the
  formatting functions below.
\<close>

record 't ConnInfo =
  Cid :: nat
  IP :: string
  Port :: int
  Name :: string
  NumSubs :: nat
  Pending :: int
  OutMsgs :: int
  InMsgs :: int
  OutBytes :: int
  InBytes :: int
  Lang :: string
  Version :: string
  Uptime :: string
  LastActivity :: 't
  Subs :: "string list"

record 'f Varz =
  InfoVersion :: "string option"
  VarzUptime :: string
  Mem :: int
  CPU :: 'f
  VarzInMsgs :: int
  VarzOutMsgs :: int
  VarzInBytes :: int
  VarzOutBytes :: int
  SlowConsumers :: int

record 't Connz =
  NumConns :: int
  ConnzConns :: "'t ConnInfo list"

record 'f Rates =
  InMsgsRate :: 'f
  OutMsgsRate :: 'f
  InBytesRate :: 'f
  OutBytesRate :: 'f

record ('f, 't) Stats =
  Varz :: "'f Varz"
  Connz :: "'t Connz"
  Rates :: "'f Rates"

text \<open>
  What the formatter takes from outside the sources: \<open>Psize\<close> of the package
  \<open>util\<close> (the human-readable size of a count), the verb \<open>%.1f\<close> on a float, the
  conversion \<open>int64(x)\<close> of a float, the text of a time under the verb \<open>%s\<close>, and
  the float that is zero.
\<close>

record ('f, 't) library =
  Psize :: "int \<Rightarrow> string"
  fmtFloat1 :: "'f \<Rightarrow> string"
  toInt64 :: "'f \<Rightarrow> int"
  timeString :: "'t \<Rightarrow> string"
  zeroFloat :: 'f

text \<open>
  Modelled from the spec: the comparisons \<open>ByCid\<close> ... \<open>ByBytesFrom\<close> are types of the
  package \<open>util\<close> whose \<open>Less\<close> compares the field of their name: the connection id,
  the subscription count, the pending bytes, the messages and the bytes sent to and
  received from the client.
\<close>

definition ByCid :: "'t ConnInfo \<Rightarrow> 't ConnInfo \<Rightarrow> bool" where
  "ByCid a b = (Cid a < Cid b)"

definition BySubs :: "'t ConnInfo \<Rightarrow> 't ConnInfo \<Rightarrow> bool" where
  "BySubs a b = (NumSubs a < NumSubs b)"

definition ByPending :: "'t ConnInfo \<Rightarrow> 't ConnInfo \<Rightarrow> bool" where
  "ByPending a b = (Pending a < Pending b)"

definition ByMsgsTo :: "'t ConnInfo \<Rightarrow> 't ConnInfo \<Rightarrow> bool" where
  "ByMsgsTo a b = (OutMsgs a < OutMsgs b)"

definition ByMsgsFrom :: "'t ConnInfo \<Rightarrow> 't ConnInfo \<Rightarrow> bool" where
  "ByMsgsFrom a b = (InMsgs a < InMsgs b)"

definition ByBytesTo :: "'t ConnInfo \<Rightarrow> 't ConnInfo \<Rightarrow> bool" where
  "ByBytesTo a b = (OutBytes a < OutBytes b)"

definition ByBytesFrom :: "'t ConnInfo \<Rightarrow> 't ConnInfo \<Rightarrow> bool" where
  "ByBytesFrom a b = (InBytes a < InBytes b)"

text \<open>The \<open>switch engine.SortOpt\<close>: the slice of connections after it.\<close>

definition sortSwitch :: "string \<Rightarrow> 't ConnInfo list \<Rightarrow> 't ConnInfo list" where
  "sortSwitch opt conns =
     (if opt = SortByCid then Sort ByCid conns
      else if opt = SortBySubs then Sort (Reverse BySubs) conns
      else if opt = SortByPending then Sort (Reverse ByPending) conns
      else if opt = SortByOutMsgs then Sort (Reverse ByMsgsTo) conns
      else if opt = SortByInMsgs then Sort (Reverse ByMsgsFrom) conns
      else if opt = SortByOutBytes then Sort (Reverse ByBytesTo) conns
      else if opt = SortByInBytes then Sort (Reverse ByBytesFrom) conns
      else conns)"

text \<open>The text up to and including the line of the connection count.\<close>

definition serverText :: "('f, 't) library \<Rightarrow> ('f, 't) Stats \<Rightarrow> string" where
  "serverText lib stats =
     (let cpu = CPU (Varz stats);
          uptime = VarzUptime (Varz stats);
          numConns = NumConns (Connz stats);
          slowConsumers = SlowConsumers (Varz stats);
          serverVersion = (case InfoVersion (Varz stats) of Some v \<Rightarrow> v | None \<Rightarrow> []);
          mem = Psize lib (Mem (Varz stats));
          inMsgs = Psize lib (VarzInMsgs (Varz stats));
          outMsgs = Psize lib (VarzOutMsgs (Varz stats));
          inBytes = Psize lib (VarzInBytes (Varz stats));
          outBytes = Psize lib (VarzOutBytes (Varz stats));
          inMsgsRate = InMsgsRate (Rates stats);
          outMsgsRate = OutMsgsRate (Rates stats);
          inBytesRate = Psize lib (toInt64 lib (InBytesRate (Rates stats)));
          outBytesRate = Psize lib (toInt64 lib (OutBytesRate (Rates stats)))
      in ''gnatsd version '' @ serverVersion @ '' (uptime: '' @ uptime @ '')''
         @ CHR 0x0A # ''Server:'' @ CHR 0x0A # ''  Load: CPU:  '' @ fmtFloat1 lib cpu
         @ ''%  Memory: '' @ mem @ ''  Slow Consumers: '' @ showInt slowConsumers
         @ CHR 0x0A # ''  In:   Msgs: '' @ inMsgs @ ''  Bytes: '' @ inBytes
         @ ''  Msgs/Sec: '' @ fmtFloat1 lib inMsgsRate @ ''  Bytes/Sec: '' @ inBytesRate
         @ CHR 0x0A # ''  Out:  Msgs: '' @ outMsgs @ ''  Bytes: '' @ outBytes
         @ ''  Msgs/Sec: '' @ fmtFloat1 lib outMsgsRate @ ''  Bytes/Sec: '' @ outBytesRate
         @ CHR 0x0A # CHR 0x0A # ''Connections: '' @ showInt numConns @ [CHR 0x0A])"

text \<open>
  A line under the format of \<open>connHeader\<close> and of \<open>connValues\<close>: thirteen columns,
  each padded on the right to its width, and the subscriptions when they are displayed.
\<close>

definition formatColumns :: "string list \<Rightarrow> string" where
  "formatColumns cols =
     (case cols of
        [c1, c2, c3, c4, c5, c6, c7, c8, c9, c10, c11, c12, c13] \<Rightarrow>
          ''  '' @ padRight 20 c1 @ '' '' @ padRight 8 c2 @ '' '' @ padRight 15 c3
          @ '' '' @ padRight 6 c4 @ ''  '' @ padRight 10 c5 @ ''  '' @ padRight 10 c6
          @ ''  '' @ padRight 10 c7 @ ''  '' @ padRight 10 c8 @ ''  '' @ padRight 10 c9
          @ ''  '' @ padRight 7 c10 @ ''  '' @ padRight 7 c11 @ ''  '' @ padRight 7 c12
          @ ''  '' @ padRight 40 c13
      | _ \<Rightarrow> [])"

definition connRows :: "bool \<Rightarrow> string" where
  "connRows displaySubs =
     formatColumns [''HOST'', ''CID'', ''NAME'', ''SUBS'', ''PENDING'', ''MSGS_TO'',
       ''MSGS_FROM'', ''BYTES_TO'', ''BYTES_FROM'', ''LANG'', ''VERSION'', ''UPTIME'',
       ''LAST ACTIVITY'']
     @ (if displaySubs then padLeft 13 ''SUBSCRIPTIONS'' else []) @ [CHR 0x0A]"

definition connLine :: "('f, 't) library \<Rightarrow> bool \<Rightarrow> 't ConnInfo \<Rightarrow> string" where
  "connLine lib displaySubs conn =
     (let host = IP conn @ '':'' @ showInt (Port conn) in
      formatColumns [host, showNat (Cid conn), Name conn, showNat (NumSubs conn),
        Psize lib (Pending conn), Psize lib (OutMsgs conn), Psize lib (InMsgs conn),
        Psize lib (OutBytes conn), Psize lib (InBytes conn), Lang conn, Version conn,
        Uptime conn, timeString lib (LastActivity conn)]
      @ (if displaySubs then Join (Subs conn) '', '' else []) @ [CHR 0x0A])"

text \<open>
  \<open>generateParagraph\<close> gets the statistics through a pointer and sorts their slice of
  connections in place, so it is a function to the text it returns and the statistics
  it leaves behind.
\<close>

definition generateParagraph ::
  "('f, 't) library \<Rightarrow> Engine \<Rightarrow> ('f, 't) Stats \<Rightarrow> string \<times> ('f, 't) Stats" where
  "generateParagraph lib eng stats =
     (let text0 = serverText lib stats;
          displaySubs = DisplaySubs eng;
          text1 = text0 @ connRows displaySubs;
          stats' = stats\<lparr>Connz := (Connz stats)
                     \<lparr>ConnzConns := sortSwitch (SortOpt eng) (ConnzConns (Connz stats))\<rparr>\<rparr>
      in (foldl (\<lambda>txt conn. txt @ connLine lib displaySubs conn) text1
            (ConnzConns (Connz stats')),
          stats'))"

section \<open>The event loop of \<open>StartUI\<close>\<close>

text \<open>The escape sequences \<open>\033[1;1H\033[6;1H\<close> that put the cursor on the prompt line.\<close>

definition promptLine :: string where
  "promptLine = CHR 0x1B # ''[1;1H'' @ CHR 0x1B # ''[6;1H''"

definition writeOut :: "string \<Rightarrow> ui_state \<Rightarrow> ui_state" where
  "writeOut str s = s\<lparr>trace := trace s @ [Printf str]\<rparr>"

definition refreshOptionHeader :: "ui_state \<Rightarrow> ui_state" where
  "refreshOptionHeader s =
     writeOut (promptLine @ ''                  '' @ ''  ''
               @ concat (replicate (length (optionBuf s)) ''  '')) s"

definition clearScreen :: "ui_state \<Rightarrow> ui_state" where
  "clearScreen s = writeOut (CHR 0x1B # ''[2J'' @ CHR 0x1B # ''[1;1H'' @ CHR 0x1B # ''[?25l'') s"

text \<open>
  \<open>cleanExit\<close> ends with \<open>os.Exit(0)\<close>, which stops the process at once: the
  \<open>ui.Close\<close> that \<open>main\<close> defers does not run, and \<open>StartUI\<close> returns in no
  other way.
\<close>

definition cleanExit :: "ui_state \<Rightarrow> ui_state" where
  "cleanExit s =
     (let s1 = clearScreen s;
          s2 = s1\<lparr>trace := trace s1 @ [UiClose]\<rparr>;
          s3 = writeOut (CHR 0x1B # ''[?25h'') s2
      in s3\<lparr>trace := trace s3 @ [OsExit 0], exited := True\<rparr>)"

definition validSortOpt :: "string \<Rightarrow> bool" where
  "validSortOpt sortOpt =
     (sortOpt = SortByCid \<or> sortOpt = SortBySubs \<or> sortOpt = SortByPending \<or>
      sortOpt = SortByOutMsgs \<or> sortOpt = SortByInMsgs \<or> sortOpt = SortByOutBytes \<or>
      sortOpt = SortByInBytes)"

text \<open>
  The handling of a key that is not the enter key, which the two blocks below share word
  for word: a backspace on a buffer that is not empty drops its last byte, and every
  other event appends \<open>string(e.Ch)\<close>.
\<close>

definition editOptionBuf :: "Event \<Rightarrow> ui_state \<Rightarrow> ui_state" where
  "editOptionBuf e s =
     (if Type e = EventKey \<and> 0 < length (optionBuf s) \<and>
         (Key e = KeyBackspace \<or> Key e = KeyBackspace2)
      then refreshOptionHeader (s\<lparr>optionBuf := butlast (optionBuf s)\<rparr>)
      else s\<lparr>optionBuf := optionBuf s @ runeString (Ch e)\<rparr>)"

text \<open>The enter key while the sort option is awaited.\<close>

definition commitSortOption :: "ui_state \<Rightarrow> ui_state" where
  "commitSortOption s =
     (let sortOpt = optionBuf s in
      if validSortOpt sortOpt then
        (let s1 = s\<lparr>engine := (engine s)\<lparr>SortOpt := sortOpt\<rparr>\<rparr>;
             s2 = refreshOptionHeader s1
         in s2\<lparr>waitingSortOption := False, optionBuf := []\<rparr>)
      else s\<lparr>goroutines := goroutines s @ [DwellStart]\<rparr>)"

text \<open>
  The block \<open>if waitingSortOption { ... }\<close>. The result says whether the block ended
  the iteration with \<open>continue\<close>.
\<close>

definition sortOptionBlock :: "Event \<Rightarrow> ui_state \<Rightarrow> bool \<times> ui_state" where
  "sortOptionBlock e s =
     (if Type e = EventKey \<and> Key e = KeyEnter then (True, commitSortOption s)
      else
        (let s1 = editOptionBuf e s
         in (False,
             writeOut (promptLine @ ''sort by ['' @ SortOpt (engine s1) @ '']: '' @ optionBuf s1)
               s1)))"

text \<open>The enter key while the limit is awaited.\<close>

definition commitLimitOption :: "ui_state \<Rightarrow> ui_state" where
  "commitLimitOption s =
     (let s1 = (case Sscanf_d (optionBuf s) of
                  Some n \<Rightarrow> s\<lparr>engine := (engine s)\<lparr>Conns := n\<rparr>\<rparr>
                | None \<Rightarrow> s);
          s2 = s1\<lparr>waitingLimitOption := False, optionBuf := []\<rparr>
      in refreshOptionHeader s2)"

text \<open>The block \<open>if waitingLimitOption { ... }\<close>, in the same way.\<close>

definition limitOptionBlock :: "Event \<Rightarrow> ui_state \<Rightarrow> bool \<times> ui_state" where
  "limitOptionBlock e s =
     (if Type e = EventKey \<and> Key e = KeyEnter then (True, commitLimitOption s)
      else
        (let s1 = editOptionBuf e s
         in (False,
             writeOut (promptLine @ ''limit   ['' @ showInt (Conns (engine s1)) @ '']: ''
                       @ optionBuf s1)
               s1)))"

text \<open>
  The rest of the iteration, one definition for each \<open>if\<close> of the loop in its order.
  The characters are the runes \<open>'q'\<close> = 113, \<open>'s'\<close> = 115, \<open>'o'\<close> = 111,
  \<open>'n'\<close> = 110, \<open>'?'\<close> = 63 and \<open>'h'\<close> = 104.
\<close>

definition quitEvent :: "Event \<Rightarrow> bool" where
  "quitEvent e = (Type e = EventKey \<and> (Ch e = 113 \<or> Key e = KeyCtrlC))"

definition quit :: "ui_state \<Rightarrow> ui_state" where
  "quit s = cleanExit (s\<lparr>trace := trace s @ [CloseShutdownCh]\<rparr>)"

definition toggleSubscriptions :: "Event \<Rightarrow> ui_state \<Rightarrow> ui_state" where
  "toggleSubscriptions e s =
     (if Type e = EventKey \<and> Ch e = 115 \<and> \<not> (waitingLimitOption s \<or> waitingSortOption s)
      then (if displaySubscriptions s
            then s\<lparr>displaySubscriptions := False,
                   engine := (engine s)\<lparr>DisplaySubs := False\<rparr>\<rparr>
            else s\<lparr>displaySubscriptions := True,
                   engine := (engine s)\<lparr>DisplaySubs := True\<rparr>\<rparr>)
      else s)"

definition leaveHelp :: "ui_state \<Rightarrow> ui_state" where
  "leaveHelp s = s\<lparr>bodyRows := TopViewMode, viewMode := TopViewMode\<rparr>"

definition askSortOption :: "Event \<Rightarrow> ui_state \<Rightarrow> ui_state" where
  "askSortOption e s =
     (if Type e = EventKey \<and> Ch e = 111 \<and> \<not> waitingLimitOption s \<and>
         viewMode s = TopViewMode
      then (writeOut (promptLine @ ''sort by ['' @ SortOpt (engine s) @ '']:'') s)
             \<lparr>waitingSortOption := True\<rparr>
      else s)"

definition askLimitOption :: "Event \<Rightarrow> ui_state \<Rightarrow> ui_state" where
  "askLimitOption e s =
     (if Type e = EventKey \<and> Ch e = 110 \<and> \<not> waitingSortOption s \<and>
         viewMode s = TopViewMode
      then (writeOut (promptLine @ ''limit   ['' @ showInt (Conns (engine s)) @ '']:'') s)
             \<lparr>waitingLimitOption := True\<rparr>
      else s)"

definition showHelp :: "Event \<Rightarrow> ui_state \<Rightarrow> ui_state" where
  "showHelp e s =
     (if Type e = EventKey \<and> (Ch e = 63 \<or> Ch e = 104) \<and>
         \<not> (waitingSortOption s \<or> waitingLimitOption s)
      then
        (let s1 = (if viewMode s = TopViewMode
                   then (refreshOptionHeader s)\<lparr>optionBuf := []\<rparr>
                   else s)
         in s1\<lparr>bodyRows := HelpViewMode, viewMode := HelpViewMode,
               waitingLimitOption := False, waitingSortOption := False\<rparr>)
      else s)"

definition resize :: "Event \<Rightarrow> ui_state \<Rightarrow> ui_state" where
  "resize e s =
     (if Type e = EventResize
      then s\<lparr>trace := trace s @ [BodyResize], goroutines := goroutines s @ [ResizeSend]\<rparr>
      else s)"

definition commandKeys :: "Event \<Rightarrow> ui_state \<Rightarrow> ui_state" where
  "commandKeys e s =
     (if quitEvent e then quit s
      else
        let s1 = toggleSubscriptions e s in
        if Type e = EventKey \<and> viewMode s1 = HelpViewMode then leaveHelp s1
        else resize e (showHelp e (askLimitOption e (askSortOption e s1))))"

text \<open>One iteration of the loop on the case \<open>e := <-evt\<close>.\<close>

definition handleEvent :: "Event \<Rightarrow> ui_state \<Rightarrow> ui_state" where
  "handleEvent e s =
     (let (c1, s1) = (if waitingSortOption s then sortOptionBlock e s else (False, s)) in
      if c1 then s1
      else
        let (c2, s2) = (if waitingLimitOption s1 then limitOptionBlock e s1 else (False, s1)) in
        if c2 then s2 else commandKeys e s2)"

section \<open>The goroutines and the whole of \<open>StartUI\<close>\<close>

text \<open>
  The goroutine that an invalid sort order starts: its statements before the sleep of
  one second, and those after it.
\<close>

definition dwellBegin :: "ui_state \<Rightarrow> ui_state" where
  "dwellBegin s =
     (let emptyPadding = ''       '';
          s1 = writeOut (promptLine @ ''invalid order: '' @ optionBuf s @ emptyPadding) s;
          s2 = s1\<lparr>waitingSortOption := False\<rparr>
      in s2\<lparr>trace := trace s2 @ [Sleep 1]\<rparr>)"

definition dwellEnd :: "ui_state \<Rightarrow> ui_state" where
  "dwellEnd s = (refreshOptionHeader s)\<lparr>optionBuf := []\<rparr>"

definition removeAt :: "nat \<Rightarrow> 'a list \<Rightarrow> 'a list" where
  "removeAt i xs = take i xs @ drop (Suc i) xs"

text \<open>Goroutine \<open>i\<close> runs up to its next sleep or its end, if it is not waiting to communicate.\<close>

definition goStep :: "nat \<Rightarrow> ui_state \<Rightarrow> ui_state" where
  "goStep i s =
     (if i < length (goroutines s) then
        (case goroutines s ! i of
           DwellStart \<Rightarrow> (dwellBegin s)\<lparr>goroutines := (goroutines s)[i := DwellSleep]\<rparr>
         | DwellSleep \<Rightarrow> (dwellEnd s)\<lparr>goroutines := removeAt i (goroutines s)\<rparr>
         | _ \<Rightarrow> s)
      else s)"

text \<open>
  The goroutine \<open>update\<close> receives statistics, formats them into the shared text and
  the paragraph, and goes on to send on \<open>redraw\<close>.
\<close>

definition updateStep ::
  "('f, 't) library \<Rightarrow> nat \<Rightarrow> ('f, 't) Stats \<Rightarrow> ui_state \<Rightarrow> ui_state" where
  "updateStep lib i stats s =
     (if i < length (goroutines s) \<and> goroutines s ! i = UpdateRecv then
        (let txt = fst (generateParagraph lib (engine s) stats)
         in s\<lparr>textVar := txt, parText := txt,
              goroutines := (goroutines s)[i := UpdateSend]\<rparr>)
      else s)"

text \<open>The case \<open><-redraw\<close> of the loop, taking what goroutine \<open>i\<close> sends.\<close>

definition redrawStep :: "nat \<Rightarrow> ui_state \<Rightarrow> ui_state" where
  "redrawStep i s =
     (if i < length (goroutines s) then
        (case goroutines s ! i of
           UpdateSend \<Rightarrow>
             s\<lparr>trace := trace s @ [Render], goroutines := (goroutines s)[i := UpdateRecv]\<rparr>
         | ResizeSend \<Rightarrow>
             s\<lparr>trace := trace s @ [Render], goroutines := removeAt i (goroutines s)\<rparr>
         | _ \<Rightarrow> s)
      else s)"

text \<open>
  A step of the program: the loop takes an event or a redraw, or a goroutine moves.
  An iteration of the loop is one step, and so is the run of a goroutine from one point
  where it blocks or sleeps to the next; the steps of the loop and of the goroutines
  follow each other in any order. After \<open>os.Exit\<close> nothing moves.
\<close>

datatype ('f, 't) step =
    EventStep Event
  | RedrawStep nat
  | GoStep nat
  | StatsStep nat "('f, 't) Stats"

definition sysStep :: "('f, 't) library \<Rightarrow> ('f, 't) step \<Rightarrow> ui_state \<Rightarrow> ui_state" where
  "sysStep lib st s =
     (if exited s then s
      else (case st of
              EventStep e \<Rightarrow> handleEvent e s
            | RedrawStep i \<Rightarrow> redrawStep i s
            | GoStep i \<Rightarrow> goStep i s
            | StatsStep i stats \<Rightarrow> updateStep lib i stats s))"

definition run :: "('f, 't) library \<Rightarrow> ui_state \<Rightarrow> ('f, 't) step list \<Rightarrow> ui_state" where
  "run lib s steps = foldl (\<lambda>s' st. sysStep lib st s') s steps"

text \<open>The events alone, with no goroutine moving in between.\<close>

definition handleEvents :: "ui_state \<Rightarrow> Event list \<Rightarrow> ui_state" where
  "handleEvents s es = foldl (\<lambda>s' e. if exited s' then s' else handleEvent e s') s es"

text \<open>The state of \<open>StartUI\<close> when it enters its loop.\<close>

definition cleanStats :: "('f, 't) library \<Rightarrow> ('f, 't) Stats" where
  "cleanStats lib =
     \<lparr>Varz = \<lparr>InfoVersion = None, VarzUptime = [], Mem = 0, CPU = zeroFloat lib,
               VarzInMsgs = 0, VarzOutMsgs = 0, VarzInBytes = 0, VarzOutBytes = 0,
               SlowConsumers = 0\<rparr>,
      Connz = \<lparr>NumConns = 0, ConnzConns = []\<rparr>,
      Rates = \<lparr>InMsgsRate = zeroFloat lib, OutMsgsRate = zeroFloat lib,
                InBytesRate = zeroFloat lib, OutBytesRate = zeroFloat lib\<rparr>\<rparr>"

definition initState :: "('f, 't) library \<Rightarrow> Engine \<Rightarrow> ui_state" where
  "initState lib eng =
     (let txt = fst (generateParagraph lib eng (cleanStats lib))
      in \<lparr>engine = eng, textVar = txt, parText = txt, bodyRows = TopViewMode,
          viewMode = TopViewMode, waitingSortOption = False, waitingLimitOption = False,
          displaySubscriptions = False, optionBuf = [], goroutines = [UpdateRecv],
          trace = [Render], exited = False\<rparr>)"

text \<open>A key event of a character, and one of a key that is no character.\<close>

definition charEvent :: "int \<Rightarrow> Event" where
  "charEvent c = \<lparr>Type = EventKey, Key = 0, Ch = c\<rparr>"

definition keyEvent :: "16 word \<Rightarrow> Event" where
  "keyEvent k = \<lparr>Type = EventKey, Key = k, Ch = 0\<rparr>"

text \<open>
  The engine \<open>main\<close> hands to \<open>StartUI\<close>, from the values of the flags \<open>-n\<close>,
  \<open>-d\<close> and \<open>-sort\<close>, and the one of the flags' defaults.
\<close>

definition mainEngine :: "int \<Rightarrow> int \<Rightarrow> string \<Rightarrow> Engine" where
  "mainEngine conns delay sortBy =
     \<lparr>Conns = conns, Delay = delay, SortOpt = sortBy, DisplaySubs = False\<rparr>"

definition defaultEngine :: Engine where
  "defaultEngine = mainEngine 1024 1 ''cid''"

text \<open>
  A library for the examples: a float that is a whole number, a time that is its text,
  and sizes printed as plain counts.
\<close>

definition exampleLibrary :: "(int, string) library" where
  "exampleLibrary =
     \<lparr>Psize = showInt, fmtFloat1 = (\<lambda>x. showInt x @ ''.0''), toInt64 = (\<lambda>x. x),
      timeString = (\<lambda>t. t), zeroFloat = 0\<rparr>"

text \<open>Statistics for the examples: two connections, out of the order of every sort key.\<close>

definition exampleConn :: "nat \<Rightarrow> nat \<Rightarrow> int \<Rightarrow> string ConnInfo" where
  "exampleConn c n p =
     \<lparr>Cid = c, IP = ''127.0.0.1'', Port = 4222, Name = [], NumSubs = n, Pending = p,
      OutMsgs = 0, InMsgs = 0, OutBytes = 0, InBytes = 0, Lang = ''go'', Version = ''1.0'',
      Uptime = ''1s'', LastActivity = [], Subs = []\<rparr>"

definition exampleStats :: "(int, string) Stats" where
  "exampleStats =
     \<lparr>Varz = (Varz (cleanStats exampleLibrary))\<lparr>InfoVersion := Some ''0.6.8''\<rparr>,
      Connz = \<lparr>NumConns = 2, ConnzConns = [exampleConn 2 0 500, exampleConn 1 3 1500]\<rparr>,
      Rates = Rates (cleanStats exampleLibrary)\<rparr>"

text \<open>The two awaiting modes are not both active.\<close>

definition exclusive :: "ui_state \<Rightarrow> bool" where
  "exclusive s = (\<not> (waitingSortOption s \<and> waitingLimitOption s))"

text \<open>
  A goroutine of an invalid sort order is under way; and the property that the buffer is
  empty in the normal mode unless one is.
\<close>

definition dwelling :: "ui_state \<Rightarrow> bool" where
  "dwelling s = (DwellStart \<in> set (goroutines s) \<or> DwellSleep \<in> set (goroutines s))"

definition idleBufferEmpty :: "ui_state \<Rightarrow> bool" where
  "idleBufferEmpty s =
     (waitingSortOption s \<or> waitingLimitOption s \<or> dwelling s \<or> optionBuf s = [])"

text \<open>How often the trace of a state has closed the terminal library and the shutdown channel.\<close>

definition closes :: "ui_state \<Rightarrow> nat" where
  "closes s = count_list (trace s) UiClose"

definition shutdowns :: "ui_state \<Rightarrow> nat" where
  "shutdowns s = count_list (trace s) CloseShutdownCh"

text \<open>
  Both are closed once when the process has exited, and not before.
\<close>

definition closedOnce :: "ui_state \<Rightarrow> bool" where
  "closedOnce s = (closes s = (if exited s then 1 else 0) \<and>
                   shutdowns s = (if exited s then 1 else 0))"

text \<open>The state the two blocks hand to the command keys when neither ends the iteration.\<close>

definition afterBlocks :: "Event \<Rightarrow> ui_state \<Rightarrow> ui_state" where
  "afterBlocks e s =
     (let s1 = (if waitingSortOption s then snd (sortOptionBlock e s) else s)
      in if waitingLimitOption s1 then snd (limitOptionBlock e s1) else s1)"

section \<open>What each part of the loop leaves alone\<close>

lemma writeOut_frame [simp]:
  "engine (writeOut x s) = engine s"
  "viewMode (writeOut x s) = viewMode s"
  "waitingSortOption (writeOut x s) = waitingSortOption s"
  "waitingLimitOption (writeOut x s) = waitingLimitOption s"
  "displaySubscriptions (writeOut x s) = displaySubscriptions s"
  "optionBuf (writeOut x s) = optionBuf s"
  "goroutines (writeOut x s) = goroutines s"
  "exited (writeOut x s) = exited s"
  "bodyRows (writeOut x s) = bodyRows s"
  "textVar (writeOut x s) = textVar s"
  "parText (writeOut x s) = parText s"
  "trace (writeOut x s) = trace s @ [Printf x]"
  by (simp_all add: writeOut_def)

lemma refreshOptionHeader_frame [simp]:
  "engine (refreshOptionHeader s) = engine s"
  "viewMode (refreshOptionHeader s) = viewMode s"
  "waitingSortOption (refreshOptionHeader s) = waitingSortOption s"
  "waitingLimitOption (refreshOptionHeader s) = waitingLimitOption s"
  "displaySubscriptions (refreshOptionHeader s) = displaySubscriptions s"
  "optionBuf (refreshOptionHeader s) = optionBuf s"
  "goroutines (refreshOptionHeader s) = goroutines s"
  "exited (refreshOptionHeader s) = exited s"
  "bodyRows (refreshOptionHeader s) = bodyRows s"
  "textVar (refreshOptionHeader s) = textVar s"
  "parText (refreshOptionHeader s) = parText s"
  by (simp_all add: refreshOptionHeader_def)

lemma editOptionBuf_frame [simp]:
  "engine (editOptionBuf e s) = engine s"
  "viewMode (editOptionBuf e s) = viewMode s"
  "waitingSortOption (editOptionBuf e s) = waitingSortOption s"
  "waitingLimitOption (editOptionBuf e s) = waitingLimitOption s"
  "displaySubscriptions (editOptionBuf e s) = displaySubscriptions s"
  "goroutines (editOptionBuf e s) = goroutines s"
  "exited (editOptionBuf e s) = exited s"
  by (simp_all add: editOptionBuf_def)

lemma commitSortOption_frame [simp]:
  "viewMode (commitSortOption s) = viewMode s"
  "waitingLimitOption (commitSortOption s) = waitingLimitOption s"
  "displaySubscriptions (commitSortOption s) = displaySubscriptions s"
  "exited (commitSortOption s) = exited s"
  "Conns (engine (commitSortOption s)) = Conns (engine s)"
  "DisplaySubs (engine (commitSortOption s)) = DisplaySubs (engine s)"
  by (simp_all add: commitSortOption_def Let_def)

lemma commitLimitOption_frame [simp]:
  "viewMode (commitLimitOption s) = viewMode s"
  "waitingSortOption (commitLimitOption s) = waitingSortOption s"
  "waitingLimitOption (commitLimitOption s) = False"
  "optionBuf (commitLimitOption s) = []"
  "displaySubscriptions (commitLimitOption s) = displaySubscriptions s"
  "exited (commitLimitOption s) = exited s"
  "goroutines (commitLimitOption s) = goroutines s"
  "SortOpt (engine (commitLimitOption s)) = SortOpt (engine s)"
  "DisplaySubs (engine (commitLimitOption s)) = DisplaySubs (engine s)"
  by (simp_all add: commitLimitOption_def Let_def split: option.split)

section \<open>The awaiting modes exclude each other\<close>

lemma exclusive_toggleSubscriptions: "exclusive (toggleSubscriptions e s) = exclusive s"
  by (simp add: exclusive_def toggleSubscriptions_def)

lemma exclusive_leaveHelp: "exclusive (leaveHelp s) = exclusive s"
  by (simp add: exclusive_def leaveHelp_def)

lemma exclusive_askSortOption: "exclusive s \<Longrightarrow> exclusive (askSortOption e s)"
  by (simp add: exclusive_def askSortOption_def)

lemma exclusive_askLimitOption: "exclusive s \<Longrightarrow> exclusive (askLimitOption e s)"
  by (simp add: exclusive_def askLimitOption_def)

lemma exclusive_showHelp: "exclusive s \<Longrightarrow> exclusive (showHelp e s)"
  by (simp add: exclusive_def showHelp_def Let_def)

lemma exclusive_resize: "exclusive (resize e s) = exclusive s"
  by (simp add: exclusive_def resize_def)

lemma exclusive_quit: "exclusive (quit s) = exclusive s"
  by (simp add: exclusive_def quit_def cleanExit_def clearScreen_def Let_def)

lemma exclusive_commandKeys: "exclusive s \<Longrightarrow> exclusive (commandKeys e s)"
  by (simp add: commandKeys_def Let_def exclusive_toggleSubscriptions exclusive_leaveHelp
      exclusive_askSortOption exclusive_askLimitOption exclusive_showHelp exclusive_resize
      exclusive_quit)

lemma exclusive_sortOptionBlock: "exclusive s \<Longrightarrow> exclusive (snd (sortOptionBlock e s))"
  by (simp add: exclusive_def sortOptionBlock_def commitSortOption_def Let_def)

lemma exclusive_limitOptionBlock: "exclusive s \<Longrightarrow> exclusive (snd (limitOptionBlock e s))"
  by (simp add: exclusive_def limitOptionBlock_def Let_def)

lemma exclusive_handleEvent:
  assumes ex: "exclusive s"
  shows "exclusive (handleEvent e s)"
proof -
  obtain c1 s1 where
    b1: "(if waitingSortOption s then sortOptionBlock e s else (False, s)) = (c1, s1)"
    by (cases "if waitingSortOption s then sortOptionBlock e s else (False, s)")
  have ex1: "exclusive s1"
    using ex b1 exclusive_sortOptionBlock [of s e] by (auto split: if_splits)
  obtain c2 s2 where
    b2: "(if waitingLimitOption s1 then limitOptionBlock e s1 else (False, s1)) = (c2, s2)"
    by (cases "if waitingLimitOption s1 then limitOptionBlock e s1 else (False, s1)")
  have ex2: "exclusive s2"
    using ex1 b2 exclusive_limitOptionBlock [of s1 e] by (auto split: if_splits)
  show ?thesis
    using ex1 ex2 exclusive_commandKeys [OF ex2, of e] by (simp add: handleEvent_def b1 b2)
qed

lemma exclusive_goStep: "exclusive s \<Longrightarrow> exclusive (goStep i s)"
  by (simp add: exclusive_def goStep_def dwellBegin_def dwellEnd_def Let_def
      split: goroutine.split)

lemma exclusive_redrawStep: "exclusive (redrawStep i s) = exclusive s"
  by (simp add: exclusive_def redrawStep_def split: goroutine.split)

lemma exclusive_updateStep: "exclusive (updateStep lib i stats s) = exclusive s"
  by (simp add: exclusive_def updateStep_def Let_def)

lemma exclusive_sysStep: "exclusive s \<Longrightarrow> exclusive (sysStep lib st s)"
  by (cases st)
     (simp_all add: sysStep_def exclusive_handleEvent exclusive_goStep exclusive_redrawStep
        exclusive_updateStep)

lemma exclusive_run: "exclusive s \<Longrightarrow> exclusive (run lib s steps)"
proof (induction steps arbitrary: s)
  case Nil
  then show ?case by (simp add: run_def)
next
  case (Cons st steps)
  have "run lib s (st # steps) = run lib (sysStep lib st s) steps"
    by (simp add: run_def)
  with Cons show ?case by (simp add: exclusive_sysStep)
qed

lemma exclusive_initState: "exclusive (initState lib eng)"
  by (simp add: exclusive_def initState_def Let_def)

text \<open>
  C1. In every state the program reaches from the start of \<open>StartUI\<close>, whatever the
  events the loop takes and however the goroutines move in between, the flags
  \<open>waitingSortOption\<close> and \<open>waitingLimitOption\<close> are not both true.
\<close>

theorem C1_awaiting_modes_exclusive:
  "\<not> (waitingSortOption (run lib (initState lib eng) steps) \<and>
      waitingLimitOption (run lib (initState lib eng) steps))"
proof -
  have "exclusive (run lib (initState lib eng) steps)"
    by (rule exclusive_run) (rule exclusive_initState)
  then show ?thesis by (simp add: exclusive_def)
qed

section \<open>Committing an option\<close>

text \<open>The definitions that a run on concrete events unfolds.\<close>

lemmas loop_defs = handleEvents_def handleEvent_def sortOptionBlock_def limitOptionBlock_def
  commandKeys_def editOptionBuf_def commitSortOption_def commitLimitOption_def
  quitEvent_def quit_def toggleSubscriptions_def leaveHelp_def askSortOption_def
  askLimitOption_def showHelp_def resize_def cleanExit_def clearScreen_def
  refreshOptionHeader_def writeOut_def validSortOpt_def
  SortByCid_def SortBySubs_def SortByPending_def SortByOutMsgs_def SortByInMsgs_def
  SortByOutBytes_def SortByInBytes_def
  charEvent_def keyEvent_def KeyEnter_def KeyBackspace_def KeyBackspace2_def KeyCtrlC_def
  runeString_def char_of_def initState_def defaultEngine_def mainEngine_def Let_def

lemmas scan_defs = Sscanf_d_def ParseInt_def spacePrefix_def spaceRunes_def isDigit_def
  digitVal_def

lemmas go_defs = goStep_def dwellBegin_def dwellEnd_def removeAt_def

lemma handleEvent_enter_sort:
  "waitingSortOption s \<Longrightarrow> Type e = EventKey \<Longrightarrow> Key e = KeyEnter \<Longrightarrow>
   handleEvent e s = commitSortOption s"
  by (simp add: handleEvent_def sortOptionBlock_def)

lemma handleEvent_enter_limit:
  "\<not> waitingSortOption s \<Longrightarrow> waitingLimitOption s \<Longrightarrow> Type e = EventKey \<Longrightarrow>
   Key e = KeyEnter \<Longrightarrow> handleEvent e s = commitLimitOption s"
  by (simp add: handleEvent_def limitOptionBlock_def)

lemma validSortOpt_tokens:
  "validSortOpt b \<longleftrightarrow>
   b \<in> {''cid'', ''subs'', ''pending'', ''msgs_to'', ''msgs_from'', ''bytes_to'', ''bytes_from''}"
  by (simp only: validSortOpt_def SortByCid_def SortBySubs_def SortByPending_def
      SortByOutMsgs_def SortByInMsgs_def SortByOutBytes_def SortByInBytes_def insert_iff
      empty_iff simp_thms)






section \<open>The loop on an event that commits nothing\<close>

lemma handleEvent_edit_sort:
  "waitingSortOption s \<Longrightarrow> \<not> waitingLimitOption s \<Longrightarrow>
   \<not> (Type e = EventKey \<and> Key e = KeyEnter) \<Longrightarrow>
   handleEvent e s =
     commandKeys e (writeOut (promptLine @ ''sort by ['' @ SortOpt (engine s) @ '']: ''
                     @ optionBuf (editOptionBuf e s)) (editOptionBuf e s))"
  by (auto simp add: handleEvent_def sortOptionBlock_def Let_def)

lemma handleEvent_edit_limit:
  "\<not> waitingSortOption s \<Longrightarrow> waitingLimitOption s \<Longrightarrow>
   \<not> (Type e = EventKey \<and> Key e = KeyEnter) \<Longrightarrow>
   handleEvent e s =
     commandKeys e (writeOut (promptLine @ ''limit   ['' @ showInt (Conns (engine s)) @ '']: ''
                     @ optionBuf (editOptionBuf e s)) (editOptionBuf e s))"
  by (auto simp add: handleEvent_def limitOptionBlock_def Let_def)

lemma handleEvent_normal:
  "\<not> waitingSortOption s \<Longrightarrow> \<not> waitingLimitOption s \<Longrightarrow> handleEvent e s = commandKeys e s"
  by (simp add: handleEvent_def)

lemma quit_frame [simp]:
  "engine (quit s) = engine s"
  "viewMode (quit s) = viewMode s"
  "waitingSortOption (quit s) = waitingSortOption s"
  "waitingLimitOption (quit s) = waitingLimitOption s"
  "displaySubscriptions (quit s) = displaySubscriptions s"
  "optionBuf (quit s) = optionBuf s"
  "goroutines (quit s) = goroutines s"
  "exited (quit s) = True"
  "trace (quit s) = trace s @ [CloseShutdownCh,
     Printf (CHR 0x1B # ''[2J'' @ CHR 0x1B # ''[1;1H'' @ CHR 0x1B # ''[?25l''), UiClose,
     Printf (CHR 0x1B # ''[?25h''), OsExit 0]"
  by (simp_all add: quit_def cleanExit_def clearScreen_def writeOut_def Let_def)

lemma toggleSubscriptions_frame [simp]:
  "viewMode (toggleSubscriptions e s) = viewMode s"
  "waitingSortOption (toggleSubscriptions e s) = waitingSortOption s"
  "waitingLimitOption (toggleSubscriptions e s) = waitingLimitOption s"
  "optionBuf (toggleSubscriptions e s) = optionBuf s"
  "goroutines (toggleSubscriptions e s) = goroutines s"
  "exited (toggleSubscriptions e s) = exited s"
  "trace (toggleSubscriptions e s) = trace s"
  "SortOpt (engine (toggleSubscriptions e s)) = SortOpt (engine s)"
  "Conns (engine (toggleSubscriptions e s)) = Conns (engine s)"
  by (simp_all add: toggleSubscriptions_def)

lemma toggleSubscriptions_awaiting [simp]:
  "waitingSortOption s \<or> waitingLimitOption s \<Longrightarrow> toggleSubscriptions e s = s"
  by (auto simp add: toggleSubscriptions_def)

lemma leaveHelp_frame [simp]:
  "engine (leaveHelp s) = engine s"
  "viewMode (leaveHelp s) = TopViewMode"
  "waitingSortOption (leaveHelp s) = waitingSortOption s"
  "waitingLimitOption (leaveHelp s) = waitingLimitOption s"
  "displaySubscriptions (leaveHelp s) = displaySubscriptions s"
  "optionBuf (leaveHelp s) = optionBuf s"
  "goroutines (leaveHelp s) = goroutines s"
  "exited (leaveHelp s) = exited s"
  "trace (leaveHelp s) = trace s"
  by (simp_all add: leaveHelp_def)

lemma askSortOption_frame [simp]:
  "engine (askSortOption e s) = engine s"
  "viewMode (askSortOption e s) = viewMode s"
  "waitingLimitOption (askSortOption e s) = waitingLimitOption s"
  "displaySubscriptions (askSortOption e s) = displaySubscriptions s"
  "optionBuf (askSortOption e s) = optionBuf s"
  "goroutines (askSortOption e s) = goroutines s"
  "exited (askSortOption e s) = exited s"
  by (simp_all add: askSortOption_def)

lemma askSortOption_waiting [simp]:
  "waitingSortOption s \<Longrightarrow> waitingSortOption (askSortOption e s)"
  by (simp add: askSortOption_def)

lemma askLimitOption_frame [simp]:
  "engine (askLimitOption e s) = engine s"
  "viewMode (askLimitOption e s) = viewMode s"
  "waitingSortOption (askLimitOption e s) = waitingSortOption s"
  "displaySubscriptions (askLimitOption e s) = displaySubscriptions s"
  "optionBuf (askLimitOption e s) = optionBuf s"
  "goroutines (askLimitOption e s) = goroutines s"
  "exited (askLimitOption e s) = exited s"
  by (simp_all add: askLimitOption_def)

lemma askLimitOption_waiting [simp]:
  "waitingLimitOption s \<Longrightarrow> waitingLimitOption (askLimitOption e s)"
  by (simp add: askLimitOption_def)

lemma askLimitOption_blocked [simp]:
  "waitingSortOption s \<Longrightarrow> askLimitOption e s = s"
  by (simp add: askLimitOption_def)

lemma askSortOption_blocked [simp]:
  "waitingLimitOption s \<Longrightarrow> askSortOption e s = s"
  by (simp add: askSortOption_def)

lemma showHelp_frame [simp]:
  "engine (showHelp e s) = engine s"
  "displaySubscriptions (showHelp e s) = displaySubscriptions s"
  "goroutines (showHelp e s) = goroutines s"
  "exited (showHelp e s) = exited s"
  by (simp_all add: showHelp_def Let_def)

lemma showHelp_awaiting [simp]:
  "waitingSortOption s \<or> waitingLimitOption s \<Longrightarrow> showHelp e s = s"
  by (auto simp add: showHelp_def)

lemma resize_frame [simp]:
  "engine (resize e s) = engine s"
  "viewMode (resize e s) = viewMode s"
  "waitingSortOption (resize e s) = waitingSortOption s"
  "waitingLimitOption (resize e s) = waitingLimitOption s"
  "displaySubscriptions (resize e s) = displaySubscriptions s"
  "optionBuf (resize e s) = optionBuf s"
  "exited (resize e s) = exited s"
  by (simp_all add: resize_def)

text \<open>The command keys while an option is awaited: only the quit keys act.\<close>

lemma commandKeys_awaiting_sort:
  assumes "waitingSortOption s" "\<not> waitingLimitOption s"
  shows "optionBuf (commandKeys e s) = optionBuf s"
    and "engine (commandKeys e s) = engine s"
    and "waitingSortOption (commandKeys e s)"
    and "\<not> waitingLimitOption (commandKeys e s)"
    and "displaySubscriptions (commandKeys e s) = displaySubscriptions s"
    and "exited (commandKeys e s) = (exited s \<or> quitEvent e)"
  using assms by (simp_all add: commandKeys_def Let_def)

lemma commandKeys_awaiting_limit:
  assumes "\<not> waitingSortOption s" "waitingLimitOption s"
  shows "optionBuf (commandKeys e s) = optionBuf s"
    and "engine (commandKeys e s) = engine s"
    and "\<not> waitingSortOption (commandKeys e s)"
    and "waitingLimitOption (commandKeys e s)"
    and "displaySubscriptions (commandKeys e s) = displaySubscriptions s"
    and "exited (commandKeys e s) = (exited s \<or> quitEvent e)"
  using assms by (simp_all add: commandKeys_def Let_def)

section \<open>Quitting\<close>

lemma counts_writeOut [simp]:
  "closes (writeOut x s) = closes s" "shutdowns (writeOut x s) = shutdowns s"
  by (simp_all add: closes_def shutdowns_def)

lemma counts_refreshOptionHeader [simp]:
  "closes (refreshOptionHeader s) = closes s" "shutdowns (refreshOptionHeader s) = shutdowns s"
  by (simp_all add: refreshOptionHeader_def)

lemma counts_editOptionBuf [simp]:
  "closes (editOptionBuf e s) = closes s" "shutdowns (editOptionBuf e s) = shutdowns s"
  by (simp_all add: editOptionBuf_def) (simp_all add: closes_def shutdowns_def)

lemma counts_commitSortOption [simp]:
  "closes (commitSortOption s) = closes s" "shutdowns (commitSortOption s) = shutdowns s"
  by (simp_all add: commitSortOption_def Let_def closes_def shutdowns_def
      refreshOptionHeader_def writeOut_def)

lemma counts_commitLimitOption [simp]:
  "closes (commitLimitOption s) = closes s" "shutdowns (commitLimitOption s) = shutdowns s"
  by (simp_all add: commitLimitOption_def Let_def closes_def shutdowns_def
      refreshOptionHeader_def writeOut_def split: option.split)

lemma counts_quit [simp]:
  "closes (quit s) = closes s + 1" "shutdowns (quit s) = shutdowns s + 1"
  by (simp_all add: closes_def shutdowns_def)

lemma counts_toggleSubscriptions [simp]:
  "closes (toggleSubscriptions e s) = closes s"
  "shutdowns (toggleSubscriptions e s) = shutdowns s"
  by (simp_all add: closes_def shutdowns_def)

lemma counts_leaveHelp [simp]:
  "closes (leaveHelp s) = closes s" "shutdowns (leaveHelp s) = shutdowns s"
  by (simp_all add: closes_def shutdowns_def)

lemma counts_askSortOption [simp]:
  "closes (askSortOption e s) = closes s" "shutdowns (askSortOption e s) = shutdowns s"
  by (simp_all add: askSortOption_def closes_def shutdowns_def writeOut_def)

lemma counts_askLimitOption [simp]:
  "closes (askLimitOption e s) = closes s" "shutdowns (askLimitOption e s) = shutdowns s"
  by (simp_all add: askLimitOption_def closes_def shutdowns_def writeOut_def)

lemma counts_showHelp [simp]:
  "closes (showHelp e s) = closes s" "shutdowns (showHelp e s) = shutdowns s"
  by (simp_all add: showHelp_def Let_def closes_def shutdowns_def refreshOptionHeader_def
      writeOut_def)

lemma counts_resize [simp]:
  "closes (resize e s) = closes s" "shutdowns (resize e s) = shutdowns s"
  by (simp_all add: resize_def closes_def shutdowns_def)

lemma commandKeys_quit: "quitEvent e \<Longrightarrow> commandKeys e s = quit s"
  by (simp add: commandKeys_def)

lemma commandKeys_no_quit:
  assumes "\<not> quitEvent e"
  shows "closes (commandKeys e s) = closes s"
    and "shutdowns (commandKeys e s) = shutdowns s"
    and "exited (commandKeys e s) = exited s"
  using assms by (simp_all add: commandKeys_def Let_def)

lemma handleEvent_no_enter:
  "\<not> (Type e = EventKey \<and> Key e = KeyEnter) \<Longrightarrow>
   handleEvent e s = commandKeys e (afterBlocks e s)"
  by (auto simp add: handleEvent_def afterBlocks_def sortOptionBlock_def limitOptionBlock_def
      Let_def)

lemma afterBlocks_counts:
  "\<not> (Type e = EventKey \<and> Key e = KeyEnter) \<Longrightarrow> closes (afterBlocks e s) = closes s"
  "\<not> (Type e = EventKey \<and> Key e = KeyEnter) \<Longrightarrow> shutdowns (afterBlocks e s) = shutdowns s"
  "\<not> (Type e = EventKey \<and> Key e = KeyEnter) \<Longrightarrow> exited (afterBlocks e s) = exited s"
  by (auto simp add: afterBlocks_def sortOptionBlock_def limitOptionBlock_def Let_def)

lemma handleEvent_enter:
  assumes "Type e = EventKey" "Key e = KeyEnter" "waitingSortOption s \<or> waitingLimitOption s"
  shows "closes (handleEvent e s) = closes s"
    and "shutdowns (handleEvent e s) = shutdowns s"
    and "exited (handleEvent e s) = exited s"
  using assms
  by (auto simp add: handleEvent_def sortOptionBlock_def limitOptionBlock_def Let_def)

lemma quit_not_enter:
  "quitEvent e \<Longrightarrow> wellFormedEvent e \<Longrightarrow> \<not> (Type e = EventKey \<and> Key e = KeyEnter)"
  by (auto simp add: quitEvent_def wellFormedEvent_def KeyEnter_def KeyCtrlC_def)

lemma run_exited: "exited s \<Longrightarrow> run lib s steps = s"
  by (induction steps) (simp_all add: run_def sysStep_def)

section \<open>Typing a sort option\<close>

lemma commandKeys_awaiting_view:
  "waitingSortOption s \<or> waitingLimitOption s \<Longrightarrow> viewMode s = TopViewMode \<Longrightarrow>
   viewMode (commandKeys e s) = TopViewMode"
  by (auto simp add: commandKeys_def Let_def)

lemma editOptionBuf_char:
  "optionBuf (editOptionBuf (charEvent c) s) = optionBuf s @ runeString c"
  by (simp add: editOptionBuf_def charEvent_def KeyBackspace_def KeyBackspace2_def)

lemma runeString_ascii: "0 \<le> c \<Longrightarrow> c < 128 \<Longrightarrow> runeString c = [char_of c]"
  by (simp add: runeString_def)

lemma quitEvent_charEvent: "quitEvent (charEvent c) \<longleftrightarrow> c = 113"
  by (simp add: quitEvent_def charEvent_def KeyCtrlC_def)

lemma charEvent_not_enter: "\<not> (Type (charEvent c) = EventKey \<and> Key (charEvent c) = KeyEnter)"
  by (simp add: charEvent_def KeyEnter_def)

lemma sort_mode_char:
  assumes "waitingSortOption s" "\<not> waitingLimitOption s" "viewMode s = TopViewMode"
    "\<not> exited s" "c \<noteq> 113" "0 \<le> c" "c < 128"
  shows "waitingSortOption (handleEvent (charEvent c) s)"
    and "\<not> waitingLimitOption (handleEvent (charEvent c) s)"
    and "viewMode (handleEvent (charEvent c) s) = TopViewMode"
    and "\<not> exited (handleEvent (charEvent c) s)"
    and "optionBuf (handleEvent (charEvent c) s) = optionBuf s @ [char_of c]"
    and "engine (handleEvent (charEvent c) s) = engine s"
    and "displaySubscriptions (handleEvent (charEvent c) s) = displaySubscriptions s"
  using assms
  by (simp_all add: handleEvent_edit_sort [OF _ _ charEvent_not_enter] commandKeys_awaiting_sort
      commandKeys_awaiting_view editOptionBuf_char runeString_ascii quitEvent_charEvent)

lemma handleEvents_Cons:
  "handleEvents s (e # es) = handleEvents (if exited s then s else handleEvent e s) es"
  by (simp add: handleEvents_def)

lemma handleEvents_Nil: "handleEvents s [] = s"
  by (simp add: handleEvents_def)

lemma handleEvents_append:
  "handleEvents s (xs @ ys) = handleEvents (handleEvents s xs) ys"
  by (simp add: handleEvents_def)

lemma sort_mode_typing:
  assumes "waitingSortOption s" "\<not> waitingLimitOption s" "viewMode s = TopViewMode"
    "\<not> exited s" "list_all (\<lambda>c. c \<noteq> 113 \<and> 0 \<le> c \<and> c < 128) cs"
  shows "waitingSortOption (handleEvents s (map charEvent cs)) \<and>
         \<not> waitingLimitOption (handleEvents s (map charEvent cs)) \<and>
         viewMode (handleEvents s (map charEvent cs)) = TopViewMode \<and>
         \<not> exited (handleEvents s (map charEvent cs)) \<and>
         optionBuf (handleEvents s (map charEvent cs)) = optionBuf s @ map char_of cs \<and>
         engine (handleEvents s (map charEvent cs)) = engine s \<and>
         displaySubscriptions (handleEvents s (map charEvent cs)) = displaySubscriptions s"
  using assms
proof (induction cs arbitrary: s)
  case Nil
  then show ?case by (simp add: handleEvents_Nil)
next
  case (Cons c cs)
  let ?s1 = "handleEvent (charEvent c) s"
  have c: "c \<noteq> 113" "0 \<le> c" "c < 128" and cs: "list_all (\<lambda>c. c \<noteq> 113 \<and> 0 \<le> c \<and> c < 128) cs"
    using Cons.prems(5) by simp_all
  note st = sort_mode_char [OF Cons.prems(1-4) c]
  have "handleEvents s (map charEvent (c # cs)) = handleEvents ?s1 (map charEvent cs)"
    using Cons.prems(4) by (simp add: handleEvents_Cons)
  moreover note Cons.IH [OF st(1-4) cs]
  ultimately show ?case by (simp add: st)
qed

lemma normal_key_o:
  assumes "\<not> waitingSortOption s" "\<not> waitingLimitOption s" "viewMode s = TopViewMode"
    "\<not> exited s"
  shows "waitingSortOption (handleEvent (charEvent 111) s)"
    and "\<not> waitingLimitOption (handleEvent (charEvent 111) s)"
    and "viewMode (handleEvent (charEvent 111) s) = TopViewMode"
    and "\<not> exited (handleEvent (charEvent 111) s)"
    and "optionBuf (handleEvent (charEvent 111) s) = optionBuf s"
    and "engine (handleEvent (charEvent 111) s) = engine s"
    and "displaySubscriptions (handleEvent (charEvent 111) s) = displaySubscriptions s"
  using assms
  by (simp_all add: handleEvent_normal commandKeys_def quitEvent_def KeyCtrlC_def Let_def
      toggleSubscriptions_def askSortOption_def charEvent_def)



section \<open>The terminal is restored once\<close>

lemma commandKeys_counts:
  "closes (commandKeys e s) = closes s + (if quitEvent e then 1 else 0)"
  "shutdowns (commandKeys e s) = shutdowns s + (if quitEvent e then 1 else 0)"
  "exited (commandKeys e s) = (exited s \<or> quitEvent e)"
  by (simp_all add: commandKeys_def Let_def)

lemma closedOnce_handleEvent:
  assumes "closedOnce s" "\<not> exited s"
  shows "closedOnce (handleEvent e s)"
proof (cases "Type e = EventKey \<and> Key e = KeyEnter")
  case False
  then show ?thesis
    using assms
    by (simp add: handleEvent_no_enter closedOnce_def commandKeys_counts afterBlocks_counts)
next
  case True
  show ?thesis
  proof (cases "waitingSortOption s \<or> waitingLimitOption s")
    case True
    with \<open>Type e = EventKey \<and> Key e = KeyEnter\<close> show ?thesis
      using assms by (simp add: closedOnce_def handleEvent_enter)
  next
    case False
    then show ?thesis
      using assms by (simp add: handleEvent_normal closedOnce_def commandKeys_counts)
  qed
qed

lemma closedOnce_goStep: "closedOnce (goStep i s) = closedOnce s"
  by (simp add: closedOnce_def closes_def shutdowns_def goStep_def dwellBegin_def dwellEnd_def
      refreshOptionHeader_def writeOut_def Let_def split: goroutine.split)

lemma closedOnce_redrawStep: "closedOnce (redrawStep i s) = closedOnce s"
  by (simp add: closedOnce_def closes_def shutdowns_def redrawStep_def split: goroutine.split)

lemma closedOnce_updateStep: "closedOnce (updateStep lib i stats s) = closedOnce s"
  by (simp add: closedOnce_def closes_def shutdowns_def updateStep_def Let_def)

lemma closedOnce_sysStep: "closedOnce s \<Longrightarrow> closedOnce (sysStep lib st s)"
  by (cases st)
     (simp_all add: sysStep_def closedOnce_handleEvent closedOnce_goStep closedOnce_redrawStep
        closedOnce_updateStep)

lemma closedOnce_run: "closedOnce s \<Longrightarrow> closedOnce (run lib s steps)"
proof (induction steps arbitrary: s)
  case Nil
  then show ?case by (simp add: run_def)
next
  case (Cons st steps)
  have "run lib s (st # steps) = run lib (sysStep lib st s) steps"
    by (simp add: run_def)
  with Cons show ?case by (simp add: closedOnce_sysStep)
qed

lemma closedOnce_initState: "closedOnce (initState lib eng)"
  by (simp add: closedOnce_def closes_def shutdowns_def initState_def Let_def)

text \<open>
  C8. A quit event, the character \<open>q\<close> or the key Ctrl-C as the terminal library
  delivers them, ends the process from every state of the loop, whatever the two awaiting
  flags and the view: the iteration closes the shutdown channel once and calls
  \<open>ui.Close\<close> once, \<open>os.Exit(0)\<close> is its last action, and no step follows it. In a
  run from the start of \<open>StartUI\<close> the terminal library has been closed once if the
  process has exited and not at all if it has not.
\<close>

theorem C8_quit_honored:
  assumes q: "quitEvent e" and wf: "wellFormedEvent e"
  shows "exited (handleEvent e s) \<and>
         count_list (trace (handleEvent e s)) CloseShutdownCh =
           count_list (trace s) CloseShutdownCh + 1 \<and>
         count_list (trace (handleEvent e s)) UiClose = count_list (trace s) UiClose + 1 \<and>
         last (trace (handleEvent e s)) = OsExit 0 \<and>
         run lib (handleEvent e s) steps = handleEvent e s \<and>
         count_list (trace (run lib (initState lib eng) past)) UiClose =
           (if exited (run lib (initState lib eng) past) then 1 else 0)"
proof -
  have ne: "\<not> (Type e = EventKey \<and> Key e = KeyEnter)"
    using q wf by (rule quit_not_enter)
  have h: "handleEvent e s = quit (afterBlocks e s)"
    using ne q by (simp add: handleEvent_no_enter commandKeys_quit)
  have ex: "exited (handleEvent e s)" by (simp add: h)
  have c1: "shutdowns (handleEvent e s) = shutdowns s + 1"
    using ne by (simp add: h afterBlocks_counts)
  have c2: "closes (handleEvent e s) = closes s + 1"
    using ne by (simp add: h afterBlocks_counts)
  have l: "last (trace (handleEvent e s)) = OsExit 0" by (simp add: h)
  have "closedOnce (run lib (initState lib eng) past)"
    by (rule closedOnce_run) (rule closedOnce_initState)
  then have once: "closes (run lib (initState lib eng) past) =
           (if exited (run lib (initState lib eng) past) then 1 else 0)"
    by (simp add: closedOnce_def)
  show ?thesis
    using ex c1 c2 l run_exited [OF ex] once by (simp add: closes_def shutdowns_def)
qed

text \<open>
  The theorem at the state after the keys \<open>o\<close> and \<open>x\<close>, where the sort option is
  awaited: the key \<open>q\<close> exits, with one call of \<open>ui.Close\<close> in the trace.
\<close>

theorem C8_quit_honored_witness:
  "quitEvent (charEvent 113) \<and> quitEvent (keyEvent KeyCtrlC) \<and>
   waitingSortOption (handleEvents (initState exampleLibrary defaultEngine)
     [charEvent 111, charEvent 120]) \<and>
   exited (handleEvent (charEvent 113)
     (handleEvents (initState exampleLibrary defaultEngine) [charEvent 111, charEvent 120])) \<and>
   count_list (trace (handleEvent (charEvent 113)
     (handleEvents (initState exampleLibrary defaultEngine) [charEvent 111, charEvent 120])))
     UiClose = 1"
proof -
  let ?s = "handleEvents (initState exampleLibrary defaultEngine) [charEvent 111, charEvent 120]"
  have q: "quitEvent (charEvent 113)" by (simp add: quitEvent_def charEvent_def)
  have q2: "quitEvent (keyEvent KeyCtrlC)" by (simp add: quitEvent_def keyEvent_def)
  have wf: "wellFormedEvent (charEvent 113)" by (simp add: wellFormedEvent_def charEvent_def)
  have w: "waitingSortOption ?s" by (simp add: loop_defs)
  have z: "count_list (trace ?s) UiClose = 0" by (simp add: loop_defs)
  note r = C8_quit_honored [OF q wf, where s = ?s and lib = exampleLibrary and steps = "[]"
    and eng = defaultEngine and past = "[]"]
  from r [THEN conjunct1] r [THEN conjunct2, THEN conjunct2, THEN conjunct1]
  show ?thesis
    using q q2 w z by simp
qed

section \<open>The subscription key and the help view\<close>

lemma toggle_refused_while_awaiting:
  assumes "waitingSortOption s \<noteq> waitingLimitOption s"
  shows "DisplaySubs (engine (handleEvent e s)) = DisplaySubs (engine s)"
    and "displaySubscriptions (handleEvent e s) = displaySubscriptions s"
proof -
  have "DisplaySubs (engine (handleEvent e s)) = DisplaySubs (engine s) \<and>
        displaySubscriptions (handleEvent e s) = displaySubscriptions s"
  proof (cases "Type e = EventKey \<and> Key e = KeyEnter")
    case True
    then show ?thesis
      using assms
      by (cases "waitingSortOption s")
         (simp_all add: handleEvent_enter_sort handleEvent_enter_limit)
  next
    case False
    then show ?thesis
      using assms
      by (cases "waitingSortOption s")
         (simp_all add: handleEvent_edit_sort handleEvent_edit_limit commandKeys_awaiting_sort
            commandKeys_awaiting_limit)
  qed
  then show "DisplaySubs (engine (handleEvent e s)) = DisplaySubs (engine s)"
    and "displaySubscriptions (handleEvent e s) = displaySubscriptions s"
    by simp_all
qed

lemma help_key_only_leaves_help:
  assumes "viewMode s = HelpViewMode" "\<not> waitingSortOption s" "\<not> waitingLimitOption s"
    and "Type e = EventKey" "\<not> quitEvent e" "Ch e \<noteq> 115"
  shows "handleEvent e s = s\<lparr>bodyRows := TopViewMode, viewMode := TopViewMode\<rparr>"
  using assms
  by (simp add: handleEvent_normal commandKeys_def toggleSubscriptions_def leaveHelp_def Let_def)

lemma help_key_s_toggles:
  assumes "viewMode s = HelpViewMode" "\<not> waitingSortOption s" "\<not> waitingLimitOption s"
    and "Type e = EventKey" "\<not> quitEvent e" "Ch e = 115"
  shows "DisplaySubs (engine (handleEvent e s)) = (\<not> displaySubscriptions s)"
    and "viewMode (handleEvent e s) = TopViewMode"
  using assms
  by (simp_all add: handleEvent_normal commandKeys_def toggleSubscriptions_def leaveHelp_def
      Let_def)

text \<open>
  C4 at the input where the program departs from it. The key \<open>h\<close> from the start shows
  the help view, in the normal mode, with the subscriptions not displayed. The key
  \<open>s\<close> there, which is no quit key, returns to the dashboard and also switches the
  display of subscriptions on: the test of the key \<open>s\<close> does not look at the view, and
  it stands before the statement that leaves the help view.
\<close>

theorem C4_toggle_in_help:
  "viewMode (handleEvents (initState exampleLibrary defaultEngine) [charEvent 104])
     = HelpViewMode \<and>
   \<not> waitingSortOption (handleEvents (initState exampleLibrary defaultEngine) [charEvent 104]) \<and>
   \<not> waitingLimitOption (handleEvents (initState exampleLibrary defaultEngine) [charEvent 104]) \<and>
   \<not> DisplaySubs (engine (handleEvents (initState exampleLibrary defaultEngine)
        [charEvent 104])) \<and>
   \<not> quitEvent (charEvent 115) \<and>
   viewMode (handleEvents (initState exampleLibrary defaultEngine)
     [charEvent 104, charEvent 115]) = TopViewMode \<and>
   DisplaySubs (engine (handleEvents (initState exampleLibrary defaultEngine)
     [charEvent 104, charEvent 115]))"
  by (simp add: loop_defs)

section \<open>Editing the buffer\<close>

lemma backspace_not_enter:
  "Key e = KeyBackspace \<or> Key e = KeyBackspace2 \<Longrightarrow>
   \<not> (Type e = EventKey \<and> Key e = KeyEnter)"
  by (auto simp add: KeyBackspace_def KeyBackspace2_def KeyEnter_def)

lemma awaiting_buffer:
  assumes "waitingSortOption s \<noteq> waitingLimitOption s"
    and "\<not> (Type e = EventKey \<and> Key e = KeyEnter)"
  shows "optionBuf (handleEvent e s) = optionBuf (editOptionBuf e s)"
proof (cases "waitingSortOption s")
  case True
  with assms have "\<not> waitingLimitOption s" by simp
  with True assms(2) show ?thesis
    by (simp add: handleEvent_edit_sort commandKeys_awaiting_sort)
next
  case False
  with assms have "waitingLimitOption s" by simp
  with False assms(2) show ?thesis
    by (simp add: handleEvent_edit_limit commandKeys_awaiting_limit)
qed

lemma backspace_drops_last_byte:
  assumes "waitingSortOption s \<noteq> waitingLimitOption s"
    and "Type e = EventKey" "Key e = KeyBackspace \<or> Key e = KeyBackspace2"
    and "optionBuf s \<noteq> []"
  shows "optionBuf (handleEvent e s) = butlast (optionBuf s)"
  using assms awaiting_buffer [OF assms(1) backspace_not_enter [OF assms(3)]]
  by (auto simp add: editOptionBuf_def)

lemma backspace_on_empty_appends_nul:
  assumes "waitingSortOption s \<noteq> waitingLimitOption s"
    and "Type e = EventKey" "Key e = KeyBackspace \<or> Key e = KeyBackspace2" "Ch e = 0"
    and "optionBuf s = []"
  shows "optionBuf (handleEvent e s) = [CHR 0x00]"
  using assms awaiting_buffer [OF assms(1) backspace_not_enter [OF assms(3)]]
  by (auto simp add: editOptionBuf_def runeString_def char_of_def)

lemma character_is_appended:
  assumes "waitingSortOption s \<noteq> waitingLimitOption s" "0 \<le> c" "c < 128"
  shows "optionBuf (handleEvent (charEvent c) s) = optionBuf s @ [char_of c]"
  using assms awaiting_buffer [OF assms(1) charEvent_not_enter]
  by (simp add: editOptionBuf_char runeString_ascii)

text \<open>
  C5 at the input where the program departs from it. After the key \<open>o\<close> (or \<open>n\<close>)
  the buffer is empty; a backspace then does not leave it empty: the test of the
  backspace includes that the buffer is not empty, so the event falls to the branch that
  appends \<open>string(e.Ch)\<close>, the string of the one byte 0. A backspace after the
  character U+00E9, which is two bytes in the buffer, drops one byte of the two. The keys
  \<open>s\<close>, \<open>u\<close>, \<open>b\<close>, \<open>s\<close> and enter after a backspace on the empty buffer do not
  set the sort key.
\<close>

theorem C5_backspace_on_empty_buffer:
  "waitingSortOption (handleEvents (initState exampleLibrary defaultEngine) [charEvent 111]) \<and>
   optionBuf (handleEvents (initState exampleLibrary defaultEngine) [charEvent 111]) = [] \<and>
   optionBuf (handleEvents (initState exampleLibrary defaultEngine)
     [charEvent 111, keyEvent KeyBackspace]) = [CHR 0x00] \<and>
   optionBuf (handleEvents (initState exampleLibrary defaultEngine)
     [charEvent 110, keyEvent KeyBackspace2]) = [CHR 0x00] \<and>
   optionBuf (handleEvents (initState exampleLibrary defaultEngine)
     [charEvent 111, charEvent 233]) = [CHR 0xC3, CHR 0xA9] \<and>
   optionBuf (handleEvents (initState exampleLibrary defaultEngine)
     [charEvent 111, charEvent 233, keyEvent KeyBackspace]) = [CHR 0xC3] \<and>
   SortOpt (engine (handleEvents (initState exampleLibrary defaultEngine)
     [charEvent 111, keyEvent KeyBackspace, charEvent 115, charEvent 117, charEvent 98,
      charEvent 115, keyEvent KeyEnter])) = ''cid''"
  by (simp add: loop_defs)

section \<open>The order of the rows\<close>

lemma mset_sink: "mset (sink lt x ys) = add_mset x (mset ys)"
  by (induction ys) simp_all

lemma set_sink: "set (sink lt x ys) = insert x (set ys)"
  by (induction ys) auto

lemma sorted_sink:
  assumes asym: "\<And>a b. lt a b \<Longrightarrow> \<not> lt b a"
    and nt: "\<And>a b c. \<not> lt a b \<Longrightarrow> \<not> lt b c \<Longrightarrow> \<not> lt a c"
  shows "sorted_wrt (\<lambda>a b. \<not> lt a b) ys \<Longrightarrow> sorted_wrt (\<lambda>a b. \<not> lt a b) (sink lt x ys)"
proof (induction ys)
  case Nil
  show ?case by simp
next
  case (Cons y ys)
  from Cons.prems have ys: "sorted_wrt (\<lambda>a b. \<not> lt a b) ys"
    and y: "\<forall>z\<in>set ys. \<not> lt y z"
    by simp_all
  show ?case
  proof (cases "lt x y")
    case True
    have "sorted_wrt (\<lambda>a b. \<not> lt a b) (sink lt x ys)" by (rule Cons.IH [OF ys])
    moreover have "\<forall>z\<in>set (sink lt x ys). \<not> lt y z"
      using y asym [OF True] by (simp add: set_sink)
    ultimately show ?thesis using True by simp
  next
    case False
    have "\<forall>z\<in>set ys. \<not> lt x z"
    proof
      fix z assume "z \<in> set ys"
      with y have "\<not> lt y z" by simp
      with False show "\<not> lt x z" by (rule nt)
    qed
    then show ?thesis using False ys y by simp
  qed
qed

lemma mset_foldl_sink:
  "mset (foldl (\<lambda>front x. sink lt x front) acc xs) = mset acc + mset xs"
  by (induction xs arbitrary: acc) (simp_all add: mset_sink)

lemma sorted_foldl_sink:
  assumes asym: "\<And>a b. lt a b \<Longrightarrow> \<not> lt b a"
    and nt: "\<And>a b c. \<not> lt a b \<Longrightarrow> \<not> lt b c \<Longrightarrow> \<not> lt a c"
  shows "sorted_wrt (\<lambda>a b. \<not> lt a b) acc \<Longrightarrow>
         sorted_wrt (\<lambda>a b. \<not> lt a b) (foldl (\<lambda>front x. sink lt x front) acc xs)"
proof (induction xs arbitrary: acc)
  case Nil
  then show ?case by simp
next
  case (Cons x xs)
  have "sorted_wrt (\<lambda>a b. \<not> lt a b) (sink lt x acc)"
    using asym nt Cons.prems by (rule sorted_sink)
  then have "sorted_wrt (\<lambda>a b. \<not> lt a b) (foldl (\<lambda>front x. sink lt x front) (sink lt x acc) xs)"
    by (rule Cons.IH)
  then show ?case by simp
qed

lemma mset_Sort: "mset (Sort lt xs) = mset xs"
  by (simp add: Sort_def mset_foldl_sink)

lemma sorted_Sort:
  assumes asym: "\<And>a b. lt a b \<Longrightarrow> \<not> lt b a"
    and nt: "\<And>a b c. \<not> lt a b \<Longrightarrow> \<not> lt b c \<Longrightarrow> \<not> lt a c"
  shows "sorted_wrt (\<lambda>a b. \<not> lt b a) (Sort lt xs)"
proof -
  have "sorted_wrt (\<lambda>a b. \<not> lt a b) []" by simp
  with asym nt
  have "sorted_wrt (\<lambda>a b. \<not> lt a b) (foldl (\<lambda>front x. sink lt x front) [] xs)"
    by (rule sorted_foldl_sink)
  then show ?thesis by (simp add: Sort_def sorted_wrt_rev)
qed

lemma Sort_key_ascending:
  "sorted_wrt (\<lambda>a b. (k a :: 'k :: linorder) \<le> k b) (Sort (\<lambda>a b. k a < k b) xs)"
proof -
  have "sorted_wrt (\<lambda>a b. \<not> k b < k a) (Sort (\<lambda>a b. k a < k b) xs)"
    by (rule sorted_Sort) simp_all
  then show ?thesis by (simp add: not_less)
qed

lemma Sort_key_descending:
  "sorted_wrt (\<lambda>a b. (k a :: 'k :: linorder) \<ge> k b) (Sort (Reverse (\<lambda>a b. k a < k b)) xs)"
proof -
  have "sorted_wrt (\<lambda>a b. \<not> Reverse (\<lambda>a b. k a < k b) b a) (Sort (Reverse (\<lambda>a b. k a < k b)) xs)"
    by (rule sorted_Sort) (simp_all add: Reverse_def)
  then show ?thesis by (simp add: not_less Reverse_def)
qed

lemma foldl_append_lines: "foldl (\<lambda>txt c. txt @ f c) txt0 xs = txt0 @ concat (map f xs)"
  by (induction xs arbitrary: txt0) simp_all

lemma rows_of_generateParagraph:
  "ConnzConns (Connz (snd (generateParagraph lib eng stats))) =
     sortSwitch (SortOpt eng) (ConnzConns (Connz stats))"
  by (simp add: generateParagraph_def Let_def)

lemma mset_sortSwitch: "mset (sortSwitch opt conns) = mset conns"
  by (simp add: sortSwitch_def mset_Sort)

lemmas sort_tokens = SortByCid_def SortBySubs_def SortByPending_def SortByOutMsgs_def
  SortByInMsgs_def SortByOutBytes_def SortByInBytes_def

lemmas By_defs = ByCid_def [abs_def] BySubs_def [abs_def] ByPending_def [abs_def]
  ByMsgsTo_def [abs_def] ByMsgsFrom_def [abs_def] ByBytesTo_def [abs_def]
  ByBytesFrom_def [abs_def]

text \<open>
  C6. The text \<open>generateParagraph\<close> returns is the server block and the header row
  followed by one row for each connection of the sorted slice, in its order. The sorted
  slice holds the connections of the snapshot, each as often as before. Under the sort key
  \<open>cid\<close> the connection ids do not decrease down the rows; under \<open>subs\<close>,
  \<open>pending\<close>, \<open>msgs_to\<close>, \<open>msgs_from\<close>, \<open>bytes_to\<close> and \<open>bytes_from\<close> the field
  of that key does not increase.
\<close>

theorem C6_rows_in_sort_order:
  "fst (generateParagraph lib eng stats) =
     serverText lib stats @ connRows (DisplaySubs eng)
       @ concat (map (connLine lib (DisplaySubs eng))
           (ConnzConns (Connz (snd (generateParagraph lib eng stats))))) \<and>
   mset (ConnzConns (Connz (snd (generateParagraph lib eng stats))))
     = mset (ConnzConns (Connz stats)) \<and>
   (SortOpt eng = ''cid'' \<longrightarrow>
      sorted_wrt (\<le>) (map Cid (ConnzConns (Connz (snd (generateParagraph lib eng stats)))))) \<and>
   (SortOpt eng = ''subs'' \<longrightarrow>
      sorted_wrt (\<ge>) (map NumSubs (ConnzConns (Connz (snd (generateParagraph lib eng stats)))))) \<and>
   (SortOpt eng = ''pending'' \<longrightarrow>
      sorted_wrt (\<ge>) (map Pending (ConnzConns (Connz (snd (generateParagraph lib eng stats)))))) \<and>
   (SortOpt eng = ''msgs_to'' \<longrightarrow>
      sorted_wrt (\<ge>) (map OutMsgs (ConnzConns (Connz (snd (generateParagraph lib eng stats)))))) \<and>
   (SortOpt eng = ''msgs_from'' \<longrightarrow>
      sorted_wrt (\<ge>) (map InMsgs (ConnzConns (Connz (snd (generateParagraph lib eng stats)))))) \<and>
   (SortOpt eng = ''bytes_to'' \<longrightarrow>
      sorted_wrt (\<ge>) (map OutBytes (ConnzConns (Connz (snd (generateParagraph lib eng stats)))))) \<and>
   (SortOpt eng = ''bytes_from'' \<longrightarrow>
      sorted_wrt (\<ge>) (map InBytes (ConnzConns (Connz (snd (generateParagraph lib eng stats))))))"
proof -
  let ?conns = "ConnzConns (Connz stats)"
  have para: "fst (generateParagraph lib eng stats) =
     serverText lib stats @ connRows (DisplaySubs eng)
       @ concat (map (connLine lib (DisplaySubs eng))
           (ConnzConns (Connz (snd (generateParagraph lib eng stats)))))"
    by (simp add: generateParagraph_def Let_def foldl_append_lines)
  have perm: "mset (sortSwitch (SortOpt eng) ?conns) = mset ?conns"
    by (rule mset_sortSwitch)
  have cid: "sorted_wrt (\<le>) (map Cid (sortSwitch ''cid'' ?conns))"
    using Sort_key_ascending [of Cid ?conns]
    by (simp add: sortSwitch_def sort_tokens By_defs sorted_wrt_map)
  have subs: "sorted_wrt (\<ge>) (map NumSubs (sortSwitch ''subs'' ?conns))"
    using Sort_key_descending [of NumSubs ?conns]
    by (simp add: sortSwitch_def sort_tokens By_defs sorted_wrt_map)
  have pending: "sorted_wrt (\<ge>) (map Pending (sortSwitch ''pending'' ?conns))"
    using Sort_key_descending [of Pending ?conns]
    by (simp add: sortSwitch_def sort_tokens By_defs sorted_wrt_map)
  have msgs_to: "sorted_wrt (\<ge>) (map OutMsgs (sortSwitch ''msgs_to'' ?conns))"
    using Sort_key_descending [of OutMsgs ?conns]
    by (simp add: sortSwitch_def sort_tokens By_defs sorted_wrt_map)
  have msgs_from: "sorted_wrt (\<ge>) (map InMsgs (sortSwitch ''msgs_from'' ?conns))"
    using Sort_key_descending [of InMsgs ?conns]
    by (simp add: sortSwitch_def sort_tokens By_defs sorted_wrt_map)
  have bytes_to: "sorted_wrt (\<ge>) (map OutBytes (sortSwitch ''bytes_to'' ?conns))"
    using Sort_key_descending [of OutBytes ?conns]
    by (simp add: sortSwitch_def sort_tokens By_defs sorted_wrt_map)
  have bytes_from: "sorted_wrt (\<ge>) (map InBytes (sortSwitch ''bytes_from'' ?conns))"
    using Sort_key_descending [of InBytes ?conns]
    by (simp add: sortSwitch_def sort_tokens By_defs sorted_wrt_map)
  show ?thesis
    using para perm cid subs pending msgs_to msgs_from bytes_to bytes_from
    by (simp only: rows_of_generateParagraph) simp
qed

text \<open>
  The theorem on two connections with 500 and 1500 pending bytes under the key
  \<open>pending\<close>: the rows come in the order 1500, 500.
\<close>

theorem C6_rows_in_sort_order_witness:
  "SortOpt (mainEngine 1024 1 ''pending'') = ''pending'' \<and>
   map Pending (ConnzConns (Connz exampleStats)) = [500, 1500] \<and>
   map Pending (ConnzConns (Connz (snd (generateParagraph exampleLibrary
     (mainEngine 1024 1 ''pending'') exampleStats)))) = [1500, 500] \<and>
   sorted_wrt (\<ge>) (map Pending (ConnzConns (Connz (snd (generateParagraph exampleLibrary
     (mainEngine 1024 1 ''pending'') exampleStats)))))"
proof -
  have key: "SortOpt (mainEngine 1024 1 ''pending'') = ''pending''"
    by (simp add: mainEngine_def)
  have before: "map Pending (ConnzConns (Connz exampleStats)) = [500, 1500]"
    by (simp add: exampleStats_def exampleConn_def)
  have after: "map Pending (ConnzConns (Connz (snd (generateParagraph exampleLibrary
     (mainEngine 1024 1 ''pending'') exampleStats)))) = [1500, 500]"
    by (simp add: rows_of_generateParagraph key sortSwitch_def sort_tokens Sort_def Reverse_def
        ByPending_def exampleStats_def exampleConn_def)
  note c = C6_rows_in_sort_order [of exampleLibrary "mainEngine 1024 1 ''pending''" exampleStats]
  from c have "SortOpt (mainEngine 1024 1 ''pending'') = ''pending'' \<longrightarrow>
      sorted_wrt (\<ge>) (map Pending (ConnzConns (Connz (snd (generateParagraph exampleLibrary
        (mainEngine 1024 1 ''pending'') exampleStats)))))"
    by (elim conjE)
  with key have "sorted_wrt (\<ge>) (map Pending (ConnzConns (Connz (snd (generateParagraph
      exampleLibrary (mainEngine 1024 1 ''pending'') exampleStats)))))"
    by (rule rev_mp)
  with key before after show ?thesis by (simp only: simp_thms)
qed

section \<open>What \<open>generateParagraph\<close> does to the snapshot\<close>

text \<open>
  C7, as the program has it. \<open>generateParagraph\<close> sorts the slice of connections of
  the snapshot in place. After the call the snapshot is the one before with its
  connections reordered by the switch on the sort key: the server's values, the rates
  and the connection count are the same, and the slice holds the same connections, each
  as often as before.
\<close>

theorem C7_snapshot_sorted_in_place:
  "snd (generateParagraph lib eng stats) =
     stats\<lparr>Connz := (Connz stats)
       \<lparr>ConnzConns := sortSwitch (SortOpt eng) (ConnzConns (Connz stats))\<rparr>\<rparr> \<and>
   Varz (snd (generateParagraph lib eng stats)) = Varz stats \<and>
   Rates (snd (generateParagraph lib eng stats)) = Rates stats \<and>
   NumConns (Connz (snd (generateParagraph lib eng stats))) = NumConns (Connz stats) \<and>
   mset (ConnzConns (Connz (snd (generateParagraph lib eng stats))))
     = mset (ConnzConns (Connz stats))"
proof -
  have snd_eq: "snd (generateParagraph lib eng stats) =
     stats\<lparr>Connz := (Connz stats)
       \<lparr>ConnzConns := sortSwitch (SortOpt eng) (ConnzConns (Connz stats))\<rparr>\<rparr>"
    by (simp add: generateParagraph_def Let_def)
  show ?thesis
    by (simp only: snd_eq) (simp add: mset_sortSwitch)
qed

text \<open>
  On the connections with the ids 2, 1 under the key \<open>cid\<close> the call leaves them in the
  order 1, 2: the snapshot after the call is not the one before.
\<close>

theorem C7_snapshot_changed_counterexample:
  "map Cid (ConnzConns (Connz exampleStats)) = [2, 1] \<and>
   map Cid (ConnzConns (Connz (snd (generateParagraph exampleLibrary defaultEngine
     exampleStats)))) = [1, 2] \<and>
   snd (generateParagraph exampleLibrary defaultEngine exampleStats) \<noteq> exampleStats"
proof -
  have before: "map Cid (ConnzConns (Connz exampleStats)) = [2, 1]"
    by (simp add: exampleStats_def exampleConn_def)
  have after: "map Cid (ConnzConns (Connz (snd (generateParagraph exampleLibrary defaultEngine
     exampleStats)))) = [1, 2]"
    by (simp add: rows_of_generateParagraph defaultEngine_def mainEngine_def sortSwitch_def
        sort_tokens Sort_def ByCid_def exampleStats_def exampleConn_def)
  have "snd (generateParagraph exampleLibrary defaultEngine exampleStats) \<noteq> exampleStats"
  proof
    assume "snd (generateParagraph exampleLibrary defaultEngine exampleStats) = exampleStats"
    with after have "map Cid (ConnzConns (Connz exampleStats)) = [1, 2]" by simp
    with before show False by simp
  qed
  with before after show ?thesis by (simp only: simp_thms)
qed

section \<open>The goroutines beside the loop\<close>

lemma generateParagraph_text:
  "fst (generateParagraph lib eng stats) =
     serverText lib stats @ connRows (DisplaySubs eng)
       @ concat (map (connLine lib (DisplaySubs eng))
           (sortSwitch (SortOpt eng) (ConnzConns (Connz stats))))"
  by (simp add: generateParagraph_def Let_def foldl_append_lines)

text \<open>
  C10, as the program has it. The configuration (sort key, sample limit, subscription
  flag), \<open>waitingLimitOption\<close>, the view and the subscription toggle are written by the
  event loop alone: no step of a goroutine changes them. The goroutines do write shared
  state while the loop runs: the goroutine of an invalid sort order clears
  \<open>waitingSortOption\<close> and, after its sleep, the option buffer (and writes to the
  terminal), and the goroutine \<open>update\<close> writes the shared text and the paragraph.
\<close>

theorem C10_helpers_leave_configuration:
  "engine (goStep i s) = engine s \<and>
   waitingLimitOption (goStep i s) = waitingLimitOption s \<and>
   viewMode (goStep i s) = viewMode s \<and>
   displaySubscriptions (goStep i s) = displaySubscriptions s \<and>
   textVar (goStep i s) = textVar s \<and>
   parText (goStep i s) = parText s \<and>
   (waitingSortOption (goStep i s) = waitingSortOption s \<or>
    waitingSortOption (goStep i s) = False) \<and>
   (optionBuf (goStep i s) = optionBuf s \<or> optionBuf (goStep i s) = []) \<and>
   engine (updateStep lib j stats s) = engine s \<and>
   waitingSortOption (updateStep lib j stats s) = waitingSortOption s \<and>
   waitingLimitOption (updateStep lib j stats s) = waitingLimitOption s \<and>
   viewMode (updateStep lib j stats s) = viewMode s \<and>
   displaySubscriptions (updateStep lib j stats s) = displaySubscriptions s \<and>
   optionBuf (updateStep lib j stats s) = optionBuf s \<and>
   trace (updateStep lib j stats s) = trace s \<and>
   (parText (updateStep lib j stats s) = parText s \<or>
    parText (updateStep lib j stats s) = fst (generateParagraph lib (engine s) stats))"
  by (simp add: goStep_def dwellBegin_def dwellEnd_def updateStep_def Let_def
      split: goroutine.split)

text \<open>
  After the keys \<open>o\<close>, \<open>x\<close> and enter the goroutine of the error is started while
  the sort option is still awaited with the buffer \<open>x\<close>. Its first step clears
  \<open>waitingSortOption\<close>, its second empties the buffer, and the two add three actions to
  the trace (two writes to the terminal and the sleep), none of them in an iteration of
  the loop. A step of \<open>update\<close> at the start changes the text of the paragraph.
\<close>

theorem C10_goroutine_mutates_counterexample:
  "goroutines (handleEvents (initState exampleLibrary defaultEngine)
     [charEvent 111, charEvent 120, keyEvent KeyEnter]) = [UpdateRecv, DwellStart] \<and>
   waitingSortOption (handleEvents (initState exampleLibrary defaultEngine)
     [charEvent 111, charEvent 120, keyEvent KeyEnter]) \<and>
   \<not> waitingSortOption (goStep 1 (handleEvents (initState exampleLibrary defaultEngine)
     [charEvent 111, charEvent 120, keyEvent KeyEnter])) \<and>
   optionBuf (goStep 1 (handleEvents (initState exampleLibrary defaultEngine)
     [charEvent 111, charEvent 120, keyEvent KeyEnter])) = ''x'' \<and>
   optionBuf (goStep 1 (goStep 1 (handleEvents (initState exampleLibrary defaultEngine)
     [charEvent 111, charEvent 120, keyEvent KeyEnter]))) = [] \<and>
   length (trace (goStep 1 (goStep 1 (handleEvents (initState exampleLibrary defaultEngine)
     [charEvent 111, charEvent 120, keyEvent KeyEnter])))) =
   length (trace (handleEvents (initState exampleLibrary defaultEngine)
     [charEvent 111, charEvent 120, keyEvent KeyEnter])) + 3 \<and>
   parText (updateStep exampleLibrary 0 exampleStats (initState exampleLibrary defaultEngine))
     \<noteq> parText (initState exampleLibrary defaultEngine)"
proof -
  have dwell:
    "goroutines (handleEvents (initState exampleLibrary defaultEngine)
       [charEvent 111, charEvent 120, keyEvent KeyEnter]) = [UpdateRecv, DwellStart] \<and>
     waitingSortOption (handleEvents (initState exampleLibrary defaultEngine)
       [charEvent 111, charEvent 120, keyEvent KeyEnter]) \<and>
     \<not> waitingSortOption (goStep 1 (handleEvents (initState exampleLibrary defaultEngine)
       [charEvent 111, charEvent 120, keyEvent KeyEnter])) \<and>
     optionBuf (goStep 1 (handleEvents (initState exampleLibrary defaultEngine)
       [charEvent 111, charEvent 120, keyEvent KeyEnter])) = ''x'' \<and>
     optionBuf (goStep 1 (goStep 1 (handleEvents (initState exampleLibrary defaultEngine)
       [charEvent 111, charEvent 120, keyEvent KeyEnter]))) = [] \<and>
     length (trace (goStep 1 (goStep 1 (handleEvents (initState exampleLibrary defaultEngine)
       [charEvent 111, charEvent 120, keyEvent KeyEnter])))) =
     length (trace (handleEvents (initState exampleLibrary defaultEngine)
       [charEvent 111, charEvent 120, keyEvent KeyEnter])) + 3"
    by (simp add: loop_defs go_defs)
  have upd:
    "parText (updateStep exampleLibrary 0 exampleStats (initState exampleLibrary defaultEngine))
       \<noteq> parText (initState exampleLibrary defaultEngine)"
    by (simp add: updateStep_def initState_def Let_def generateParagraph_text serverText_def
        exampleStats_def cleanStats_def)
  from dwell upd show ?thesis by (simp only: simp_thms)
qed

section \<open>The buffer in the normal mode\<close>

lemma idle_toggleSubscriptions: "idleBufferEmpty (toggleSubscriptions e s) = idleBufferEmpty s"
  by (simp add: idleBufferEmpty_def dwelling_def)

lemma idle_leaveHelp: "idleBufferEmpty (leaveHelp s) = idleBufferEmpty s"
  by (simp add: idleBufferEmpty_def dwelling_def)

lemma idle_askSortOption: "idleBufferEmpty s \<Longrightarrow> idleBufferEmpty (askSortOption e s)"
  by (auto simp add: idleBufferEmpty_def dwelling_def askSortOption_def)

lemma idle_askLimitOption: "idleBufferEmpty s \<Longrightarrow> idleBufferEmpty (askLimitOption e s)"
  by (auto simp add: idleBufferEmpty_def dwelling_def askLimitOption_def)

lemma idle_showHelp: "idleBufferEmpty s \<Longrightarrow> idleBufferEmpty (showHelp e s)"
  by (auto simp add: idleBufferEmpty_def dwelling_def showHelp_def Let_def)

lemma idle_resize: "idleBufferEmpty s \<Longrightarrow> idleBufferEmpty (resize e s)"
  by (auto simp add: idleBufferEmpty_def dwelling_def resize_def)

lemma idle_quit: "idleBufferEmpty (quit s) = idleBufferEmpty s"
  by (simp add: idleBufferEmpty_def dwelling_def)

lemma idle_commandKeys: "idleBufferEmpty s \<Longrightarrow> idleBufferEmpty (commandKeys e s)"
  by (simp add: commandKeys_def Let_def idle_toggleSubscriptions idle_leaveHelp
      idle_askSortOption idle_askLimitOption idle_showHelp idle_resize idle_quit)

lemma idle_sortOptionBlock:
  "waitingSortOption s \<Longrightarrow> idleBufferEmpty (snd (sortOptionBlock e s))"
  by (simp add: idleBufferEmpty_def dwelling_def sortOptionBlock_def commitSortOption_def Let_def)

lemma idle_limitOptionBlock:
  "waitingLimitOption s \<Longrightarrow> idleBufferEmpty (snd (limitOptionBlock e s))"
  by (simp add: idleBufferEmpty_def dwelling_def limitOptionBlock_def Let_def)

lemma idle_handleEvent:
  assumes idle: "idleBufferEmpty s"
  shows "idleBufferEmpty (handleEvent e s)"
proof -
  obtain c1 s1 where
    b1: "(if waitingSortOption s then sortOptionBlock e s else (False, s)) = (c1, s1)"
    by (cases "if waitingSortOption s then sortOptionBlock e s else (False, s)")
  have i1: "idleBufferEmpty s1"
    using idle b1 idle_sortOptionBlock [of s e] by (auto split: if_splits)
  obtain c2 s2 where
    b2: "(if waitingLimitOption s1 then limitOptionBlock e s1 else (False, s1)) = (c2, s2)"
    by (cases "if waitingLimitOption s1 then limitOptionBlock e s1 else (False, s1)")
  have i2: "idleBufferEmpty s2"
    using i1 b2 idle_limitOptionBlock [of s1 e] by (auto split: if_splits)
  show ?thesis
    using i1 i2 idle_commandKeys [OF i2, of e] by (simp add: handleEvent_def b1 b2)
qed

lemma set_removeAt_other:
  assumes i: "i < length xs" and x: "x \<noteq> xs ! i"
  shows "x \<in> set (removeAt i xs) \<longleftrightarrow> x \<in> set xs"
proof -
  have "set (drop i xs) = insert (xs ! i) (set (drop (Suc i) xs))"
    using Cons_nth_drop_Suc [OF i] by (metis list.simps(15))
  moreover have "set xs = set (take i xs) \<union> set (drop i xs)"
    by (metis append_take_drop_id set_append)
  ultimately have "set xs = set (take i xs) \<union> insert (xs ! i) (set (drop (Suc i) xs))"
    by simp
  moreover have "set (removeAt i xs) = set (take i xs) \<union> set (drop (Suc i) xs)"
    by (simp add: removeAt_def)
  ultimately show ?thesis using x by blast
qed

lemma idle_goStep: "idleBufferEmpty s \<Longrightarrow> idleBufferEmpty (goStep i s)"
  by (auto simp add: idleBufferEmpty_def dwelling_def goStep_def dwellBegin_def dwellEnd_def
      Let_def set_update_memI split: goroutine.split)

lemma idle_redrawStep: "idleBufferEmpty s \<Longrightarrow> idleBufferEmpty (redrawStep i s)"
proof (cases "i < length (goroutines s)")
  case False
  then show "idleBufferEmpty s \<Longrightarrow> idleBufferEmpty (redrawStep i s)"
    by (simp add: redrawStep_def)
next
  case True
  assume idle: "idleBufferEmpty s"
  show "idleBufferEmpty (redrawStep i s)"
  proof (cases "goroutines s ! i")
    case UpdateSend
    have "x \<in> set (goroutines s) \<Longrightarrow> x \<noteq> UpdateSend \<Longrightarrow>
          x \<in> set ((goroutines s)[i := UpdateRecv])" for x
      using True UpdateSend by (metis in_set_conv_nth length_list_update nth_list_update_neq)
    then show ?thesis
      using idle True UpdateSend
      by (auto simp add: idleBufferEmpty_def dwelling_def redrawStep_def)
  next
    case ResizeSend
    then show ?thesis
      using idle True
      by (auto simp add: idleBufferEmpty_def dwelling_def redrawStep_def set_removeAt_other)
  qed (use idle True in \<open>simp_all add: redrawStep_def\<close>)
qed

lemma idle_updateStep: "idleBufferEmpty s \<Longrightarrow> idleBufferEmpty (updateStep lib i stats s)"
proof (cases "i < length (goroutines s) \<and> goroutines s ! i = UpdateRecv")
  case False
  then show "idleBufferEmpty s \<Longrightarrow> idleBufferEmpty (updateStep lib i stats s)"
    by (auto simp add: updateStep_def)
next
  case True
  assume idle: "idleBufferEmpty s"
  have "x \<in> set (goroutines s) \<Longrightarrow> x \<noteq> UpdateRecv \<Longrightarrow>
        x \<in> set ((goroutines s)[i := UpdateSend])" for x
    using True by (metis in_set_conv_nth length_list_update nth_list_update_neq)
  then show "idleBufferEmpty (updateStep lib i stats s)"
    using idle True
    by (auto simp add: idleBufferEmpty_def dwelling_def updateStep_def Let_def)
qed

lemma idle_sysStep: "idleBufferEmpty s \<Longrightarrow> idleBufferEmpty (sysStep lib st s)"
  by (cases st)
     (simp_all add: sysStep_def idle_handleEvent idle_goStep idle_redrawStep idle_updateStep)

lemma idle_run: "idleBufferEmpty s \<Longrightarrow> idleBufferEmpty (run lib s steps)"
proof (induction steps arbitrary: s)
  case Nil
  then show ?case by (simp add: run_def)
next
  case (Cons st steps)
  have "run lib s (st # steps) = run lib (sysStep lib st s) steps"
    by (simp add: run_def)
  with Cons show ?case by (simp add: idle_sysStep)
qed

lemma idle_buffer_empty:
  assumes "\<not> waitingSortOption (run lib (initState lib eng) steps)"
    and "\<not> waitingLimitOption (run lib (initState lib eng) steps)"
    and "\<not> dwelling (run lib (initState lib eng) steps)"
  shows "optionBuf (run lib (initState lib eng) steps) = []"
proof -
  have "idleBufferEmpty (initState lib eng)"
    by (simp add: idleBufferEmpty_def initState_def Let_def)
  then have "idleBufferEmpty (run lib (initState lib eng) steps)" by (rule idle_run)
  with assms show ?thesis by (simp add: idleBufferEmpty_def)
qed

end
